theory Spec2Isabelle
  imports Main
begin

section \<open>JavaScript values\<close>

text \<open>
  The values the storage module handles are the results of \<^verbatim>\<open>JSON.parse\<close>, the
  arguments of its functions, and \<^verbatim>\<open>undefined\<close>. A value is a \<open>json\<close>; where
  \<^verbatim>\<open>undefined\<close> can occur (a missing property, the result of \<^verbatim>\<open>find\<close>) the type is
  \<open>json option\<close> and \<open>None\<close> is \<^verbatim>\<open>undefined\<close>. Numbers are integers (post ids);
  an object is the list of its properties, looked up by name.
\<close>

datatype json =
    JNull
  | JBool bool
  | JNum int
  | JStr string
  | JArr "json list"
  | JObj "(string \<times> json) list"

text \<open>What a \<^verbatim>\<open>catch (error)\<close> can receive: a rejected AsyncStorage promise with its
  message, the SyntaxError of \<^verbatim>\<open>JSON.parse\<close>, or a TypeError (a property of
  \<^verbatim>\<open>null\<close>, or a call of something that is not a function).\<close>

datatype exn = Error string | SyntaxError | TypeError

text \<open>The \<^verbatim>\<open>error\<close> field of a failure result: a literal of the source, or
  \<^verbatim>\<open>error.message\<close> of the exception caught.\<close>

datatype err = Literal string | Message exn

datatype 'a result = Success 'a | Failure err

text \<open>Truthiness, as \<^verbatim>\<open>&&\<close>, \<^verbatim>\<open>!\<close> and \<^verbatim>\<open>?:\<close> test it.\<close>

fun truthy :: "json \<Rightarrow> bool" where
  "truthy JNull = False"
| "truthy (JBool b) = b"
| "truthy (JNum n) = (n \<noteq> 0)"
| "truthy (JStr s) = (s \<noteq> [])"
| "truthy (JArr xs) = True"
| "truthy (JObj kvs) = True"

text \<open>Reading a property \<^verbatim>\<open>v.k\<close>, for the names the module reads (\<^verbatim>\<open>id\<close>,
  \<^verbatim>\<open>email\<close>, \<^verbatim>\<open>password\<close>), none of which a string, a number, a boolean or an
  array has: \<^verbatim>\<open>null.k\<close> throws a TypeError, an object gives its property or
  \<^verbatim>\<open>undefined\<close>, everything else gives \<^verbatim>\<open>undefined\<close>.\<close>

fun get_prop :: "json \<Rightarrow> string \<Rightarrow> exn + json option" where
  "get_prop JNull k = Inl TypeError"
| "get_prop (JObj kvs) k = Inr (map_of kvs k)"
| "get_prop (JBool b) k = Inr None"
| "get_prop (JNum n) k = Inr None"
| "get_prop (JStr s) k = Inr None"
| "get_prop (JArr xs) k = Inr None"

text \<open>Strict equality \<^verbatim>\<open>===\<close>. Primitives are compared by value and type, with no
  coercion. Arrays and objects are compared by reference; in this module one side of
  every comparison comes out of a fresh \<^verbatim>\<open>JSON.parse\<close>, so two of them are never
  the same reference.\<close>

fun strict_eq :: "json option \<Rightarrow> json option \<Rightarrow> bool" where
  "strict_eq None None = True"
| "strict_eq (Some JNull) (Some JNull) = True"
| "strict_eq (Some (JBool a)) (Some (JBool b)) = (a = b)"
| "strict_eq (Some (JNum a)) (Some (JNum b)) = (a = b)"
| "strict_eq (Some (JStr a)) (Some (JStr b)) = (a = b)"
| "strict_eq _ _ = False"

text \<open>The array methods the module calls, with a callback that can throw. Each stops at
  the first exception; \<^verbatim>\<open>find\<close> and \<^verbatim>\<open>some\<close> stop at the first hit.\<close>

fun Array_find :: "(json \<Rightarrow> exn + bool) \<Rightarrow> json list \<Rightarrow> exn + json option" where
  "Array_find p [] = Inr None"
| "Array_find p (x # xs) =
     (case p x of
        Inl e \<Rightarrow> Inl e
      | Inr True \<Rightarrow> Inr (Some x)
      | Inr False \<Rightarrow> Array_find p xs)"

fun Array_filter :: "(json \<Rightarrow> exn + bool) \<Rightarrow> json list \<Rightarrow> exn + json list" where
  "Array_filter p [] = Inr []"
| "Array_filter p (x # xs) =
     (case p x of
        Inl e \<Rightarrow> Inl e
      | Inr b \<Rightarrow>
          (case Array_filter p xs of
             Inl e \<Rightarrow> Inl e
           | Inr ys \<Rightarrow> Inr (if b then x # ys else ys)))"

fun Array_some :: "(json \<Rightarrow> exn + bool) \<Rightarrow> json list \<Rightarrow> exn + bool" where
  "Array_some p [] = Inr False"
| "Array_some p (x # xs) =
     (case p x of
        Inl e \<Rightarrow> Inl e
      | Inr True \<Rightarrow> Inr True
      | Inr False \<Rightarrow> Array_some p xs)"

section \<open>The platform: JSON and AsyncStorage\<close>

text \<open>
  \<^verbatim>\<open>JSON.stringify\<close> and \<^verbatim>\<open>JSON.parse\<close> belong to the JavaScript engine, not to
  the repository. Every function below takes them as the parameter \<open>J\<close>;
  \<open>parse J s = None\<close> is the SyntaxError.
\<close>

record codec =
  stringify :: "json \<Rightarrow> string"
  parse :: "string \<Rightarrow> json option"

text \<open>What the engine's JSON guarantees and the read-after-write properties need: a
  serialised value is not the empty string, and parses back to the value.\<close>

definition roundtrips :: "codec \<Rightarrow> bool" where
  "roundtrips J = (\<forall>v. stringify J v \<noteq> [] \<and> parse J (stringify J v) = Some v)"

text \<open>
  AsyncStorage is a key-value store of strings. Each call returns a promise that can
  reject. \<open>faults\<close> is what the device will do to the coming calls, in order:
  \<open>Some m\<close> rejects the call with \<^verbatim>\<open>Error(m)\<close> and leaves the store as it is,
  \<open>None\<close> lets it through; when the list is used up every call goes through.
\<close>

record storage =
  items :: "string \<Rightarrow> string option"
  faults :: "string option list"

definition next_fault :: "storage \<Rightarrow> string option \<times> storage" where
  "next_fault st =
     (case faults st of
        [] \<Rightarrow> (None, st)
      | f # fs \<Rightarrow> (f, st\<lparr>faults := fs\<rparr>))"

definition getItem :: "string \<Rightarrow> storage \<Rightarrow> (exn + string option) \<times> storage" where
  "getItem k st =
     (case next_fault st of
        (Some m, st') \<Rightarrow> (Inl (Error m), st')
      | (None, st') \<Rightarrow> (Inr (items st' k), st'))"

definition setItem :: "string \<Rightarrow> string \<Rightarrow> storage \<Rightarrow> (exn + unit) \<times> storage" where
  "setItem k v st =
     (case next_fault st of
        (Some m, st') \<Rightarrow> (Inl (Error m), st')
      | (None, st') \<Rightarrow> (Inr (), st'\<lparr>items := (items st')(k := Some v)\<rparr>))"

definition multiRemove :: "string list \<Rightarrow> storage \<Rightarrow> (exn + unit) \<times> storage" where
  "multiRemove ks st =
     (case next_fault st of
        (Some m, st') \<Rightarrow> (Inl (Error m), st')
      | (None, st') \<Rightarrow>
          (Inr (), st'\<lparr>items := (\<lambda>k. if k \<in> set ks then None else items st' k)\<rparr>))"

section \<open>The storage module\<close>

definition KEYS_USER :: string where "KEYS_USER = ''@user_data''"
definition KEYS_FAVORITES :: string where "KEYS_FAVORITES = ''@favorites''"
definition KEYS_SETTINGS :: string where "KEYS_SETTINGS = ''@settings''"
definition KEYS_IS_LOGGED_IN :: string where "KEYS_IS_LOGGED_IN = ''@is_logged_in''"

definition KEYS_values :: "string list" where
  "KEYS_values = [KEYS_USER, KEYS_FAVORITES, KEYS_SETTINGS, KEYS_IS_LOGGED_IN]"

definition saveUserData :: "codec \<Rightarrow> json \<Rightarrow> storage \<Rightarrow> unit result \<times> storage" where
  "saveUserData J userData st =
     (case setItem KEYS_USER (stringify J userData) st of
        (Inl e, st1) \<Rightarrow> (Failure (Message e), st1)
      | (Inr u, st1) \<Rightarrow>
          (case setItem KEYS_IS_LOGGED_IN ''true'' st1 of
             (Inl e, st2) \<Rightarrow> (Failure (Message e), st2)
           | (Inr u', st2) \<Rightarrow> (Success (), st2)))"

text \<open>The three readers share one shape: \<^verbatim>\<open>s ? JSON.parse(s) : dflt\<close> inside a
  \<^verbatim>\<open>try\<close> whose \<^verbatim>\<open>catch\<close> returns the same default. \<^verbatim>\<open>null\<close> and the empty
  string are falsy.\<close>

definition getUserData :: "codec \<Rightarrow> storage \<Rightarrow> json \<times> storage" where
  "getUserData J st =
     (case getItem KEYS_USER st of
        (Inl e, st1) \<Rightarrow> (JNull, st1)
      | (Inr None, st1) \<Rightarrow> (JNull, st1)
      | (Inr (Some userData), st1) \<Rightarrow>
          (if userData = [] then (JNull, st1)
           else case parse J userData of
                  None \<Rightarrow> (JNull, st1)
                | Some v \<Rightarrow> (v, st1)))"

definition validateUser :: "codec \<Rightarrow> string \<Rightarrow> string \<Rightarrow> storage \<Rightarrow> json result \<times> storage" where
  "validateUser J email password st =
     (case getUserData J st of
        (userData, st1) \<Rightarrow>
          (if \<not> truthy userData then (Failure (Literal ''Invalid email or password''), st1)
           else case get_prop userData ''email'' of
                  Inl e \<Rightarrow> (Failure (Message e), st1)
                | Inr em \<Rightarrow>
                    (if \<not> strict_eq em (Some (JStr email))
                     then (Failure (Literal ''Invalid email or password''), st1)
                     else case get_prop userData ''password'' of
                            Inl e \<Rightarrow> (Failure (Message e), st1)
                          | Inr pw \<Rightarrow>
                              (if strict_eq pw (Some (JStr password))
                               then (Success userData, st1)
                               else (Failure (Literal ''Invalid email or password''), st1)))))"

definition checkLoginStatus :: "storage \<Rightarrow> bool \<times> storage" where
  "checkLoginStatus st =
     (case getItem KEYS_IS_LOGGED_IN st of
        (Inl e, st1) \<Rightarrow> (False, st1)
      | (Inr isLoggedIn, st1) \<Rightarrow> (isLoggedIn = Some ''true'', st1))"

definition logoutUser :: "storage \<Rightarrow> unit result \<times> storage" where
  "logoutUser st =
     (case setItem KEYS_IS_LOGGED_IN ''false'' st of
        (Inl e, st1) \<Rightarrow> (Failure (Message e), st1)
      | (Inr u, st1) \<Rightarrow> (Success (), st1))"

definition saveFavorites :: "codec \<Rightarrow> json \<Rightarrow> storage \<Rightarrow> unit result \<times> storage" where
  "saveFavorites J favorites st =
     (case setItem KEYS_FAVORITES (stringify J favorites) st of
        (Inl e, st1) \<Rightarrow> (Failure (Message e), st1)
      | (Inr u, st1) \<Rightarrow> (Success (), st1))"

definition getFavorites :: "codec \<Rightarrow> storage \<Rightarrow> json \<times> storage" where
  "getFavorites J st =
     (case getItem KEYS_FAVORITES st of
        (Inl e, st1) \<Rightarrow> (JArr [], st1)
      | (Inr None, st1) \<Rightarrow> (JArr [], st1)
      | (Inr (Some favorites), st1) \<Rightarrow>
          (if favorites = [] then (JArr [], st1)
           else case parse J favorites of
                  None \<Rightarrow> (JArr [], st1)
                | Some v \<Rightarrow> (v, st1)))"

text \<open>The callback \<^verbatim>\<open>(item) => item.id === x\<close>, with \<open>x\<close> already a value.\<close>

definition id_is :: "json option \<Rightarrow> json \<Rightarrow> exn + bool" where
  "id_is x item =
     (case get_prop item ''id'' of
        Inl e \<Rightarrow> Inl e
      | Inr i \<Rightarrow> Inr (strict_eq i x))"

text \<open>The callback \<^verbatim>\<open>(item) => item.id === post.id\<close>: \<^verbatim>\<open>item.id\<close> is read first,
  then \<^verbatim>\<open>post.id\<close>, at every item.\<close>

definition same_id :: "json \<Rightarrow> json \<Rightarrow> exn + bool" where
  "same_id post item =
     (case get_prop item ''id'' of
        Inl e \<Rightarrow> Inl e
      | Inr i \<Rightarrow>
          (case get_prop post ''id'' of
             Inl e \<Rightarrow> Inl e
           | Inr p \<Rightarrow> Inr (strict_eq i p)))"

definition id_is_not :: "json option \<Rightarrow> json \<Rightarrow> exn + bool" where
  "id_is_not x item =
     (case get_prop item ''id'' of
        Inl e \<Rightarrow> Inl e
      | Inr i \<Rightarrow> Inr (\<not> strict_eq i x))"

text \<open>\<^verbatim>\<open>favorites.find\<close>, \<^verbatim>\<open>.filter\<close> and \<^verbatim>\<open>.some\<close> exist on an array only; on
  anything else the call throws a TypeError. The result of \<^verbatim>\<open>saveFavorites\<close> is
  awaited and dropped.\<close>

definition addToFavorites :: "codec \<Rightarrow> json \<Rightarrow> storage \<Rightarrow> unit result \<times> storage" where
  "addToFavorites J post st =
     (case getFavorites J st of
        (JArr favorites, st1) \<Rightarrow>
          (case Array_find (same_id post) favorites of
             Inl e \<Rightarrow> (Failure (Message e), st1)
           | Inr exists \<Rightarrow>
               (if \<not> (case exists of None \<Rightarrow> False | Some item \<Rightarrow> truthy item)
                then (case saveFavorites J (JArr (favorites @ [post])) st1 of
                        (r, st2) \<Rightarrow> (Success (), st2))
                else (Success (), st1)))
      | (other, st1) \<Rightarrow> (Failure (Message TypeError), st1))"

definition removeFromFavorites :: "codec \<Rightarrow> json option \<Rightarrow> storage \<Rightarrow> unit result \<times> storage" where
  "removeFromFavorites J postId st =
     (case getFavorites J st of
        (JArr favorites, st1) \<Rightarrow>
          (case Array_filter (id_is_not postId) favorites of
             Inl e \<Rightarrow> (Failure (Message e), st1)
           | Inr filtered \<Rightarrow>
               (case saveFavorites J (JArr filtered) st1 of
                  (r, st2) \<Rightarrow> (Success (), st2)))
      | (other, st1) \<Rightarrow> (Failure (Message TypeError), st1))"

definition isInFavorites :: "codec \<Rightarrow> json option \<Rightarrow> storage \<Rightarrow> bool \<times> storage" where
  "isInFavorites J postId st =
     (case getFavorites J st of
        (JArr favorites, st1) \<Rightarrow>
          (case Array_some (id_is postId) favorites of
             Inl e \<Rightarrow> (False, st1)
           | Inr b \<Rightarrow> (b, st1))
      | (other, st1) \<Rightarrow> (False, st1))"

definition saveSettings :: "codec \<Rightarrow> json \<Rightarrow> storage \<Rightarrow> unit result \<times> storage" where
  "saveSettings J settings st =
     (case setItem KEYS_SETTINGS (stringify J settings) st of
        (Inl e, st1) \<Rightarrow> (Failure (Message e), st1)
      | (Inr u, st1) \<Rightarrow> (Success (), st1))"

definition default_settings :: json where
  "default_settings = JObj [(''darkMode'', JBool False), (''notifications'', JBool True)]"

definition getSettings :: "codec \<Rightarrow> storage \<Rightarrow> json \<times> storage" where
  "getSettings J st =
     (case getItem KEYS_SETTINGS st of
        (Inl e, st1) \<Rightarrow> (default_settings, st1)
      | (Inr None, st1) \<Rightarrow> (default_settings, st1)
      | (Inr (Some settings), st1) \<Rightarrow>
          (if settings = [] then (default_settings, st1)
           else case parse J settings of
                  None \<Rightarrow> (default_settings, st1)
                | Some v \<Rightarrow> (v, st1)))"

definition clearAllData :: "storage \<Rightarrow> unit result \<times> storage" where
  "clearAllData st =
     (case multiRemove KEYS_values st of
        (Inl e, st1) \<Rightarrow> (Failure (Message e), st1)
      | (Inr u, st1) \<Rightarrow> (Success (), st1))"

section \<open>The API module\<close>

text \<open>The sample posts, as \<^verbatim>\<open>src/utils/api.js\<close> lists them.\<close>

definition samplePosts :: "json list" where
  "samplePosts =
    [
     JObj [(''id'', JNum 1), (''userId'', JNum 1),
           (''title'', JStr ''Introduction to Machine Learning''),
           (''body'', JStr ''Machine learning is a subset of artificial intelligence that enables systems to learn and improve from experience without being explicitly programmed. It focuses on developing algorithms that can access data and use it to learn for themselves.'')],
     JObj [(''id'', JNum 2), (''userId'', JNum 2),
           (''title'', JStr ''The Future of Renewable Energy''),
           (''body'', JStr ''Renewable energy sources like solar, wind, and hydroelectric power are becoming increasingly important as we seek to reduce our carbon footprint and combat climate change. The transition to clean energy is essential for a sustainable future.'')],
     JObj [(''id'', JNum 3), (''userId'', JNum 3),
           (''title'', JStr ''Understanding Blockchain Technology''),
           (''body'', JStr ''Blockchain is a distributed ledger technology that records transactions across many computers. Its key features include decentralization, transparency, and security. It has applications beyond cryptocurrency in supply chain, voting, and more.'')],
     JObj [(''id'', JNum 4), (''userId'', JNum 4),
           (''title'', JStr ''The Rise of Electric Vehicles''),
           (''body'', JStr ''Electric vehicles are revolutionizing the automotive industry with their environmental benefits and advancing technology. Major automakers are investing heavily in EV development, making electric cars more accessible to consumers worldwide.'')],
     JObj [(''id'', JNum 5), (''userId'', JNum 5),
           (''title'', JStr ''Web Development Best Practices''),
           (''body'', JStr ''Modern web development requires understanding of HTML, CSS, JavaScript, and various frameworks. Following best practices like responsive design, accessibility, and performance optimization creates better user experiences.'')],
     JObj [(''id'', JNum 6), (''userId'', JNum 6),
           (''title'', JStr ''Cybersecurity in the Digital Age''),
           (''body'', JStr ''With increasing digitalization, cybersecurity has become crucial for individuals and organizations. Understanding common threats like phishing, malware, and ransomware helps in implementing effective protection measures.'')],
     JObj [(''id'', JNum 7), (''userId'', JNum 1),
           (''title'', JStr ''Cloud Computing Fundamentals''),
           (''body'', JStr ''Cloud computing provides on-demand computing resources over the internet. Services like storage, processing power, and applications are delivered through cloud platforms, enabling scalable and cost-effective solutions.'')],
     JObj [(''id'', JNum 8), (''userId'', JNum 2),
           (''title'', JStr ''Data Science and Analytics''),
           (''body'', JStr ''Data science involves extracting insights from data using various techniques including statistics, machine learning, and programming. It helps organizations make data-driven decisions and solve complex problems.'')],
     JObj [(''id'', JNum 9), (''userId'', JNum 3),
           (''title'', JStr ''Mobile App Development Trends''),
           (''body'', JStr ''Mobile app development continues to evolve with new technologies and user expectations. Key trends include cross-platform development, AI integration, and focus on user experience and security.'')],
     JObj [(''id'', JNum 10), (''userId'', JNum 4),
           (''title'', JStr ''Artificial Intelligence in Healthcare''),
           (''body'', JStr ''AI is transforming healthcare through improved diagnostics, personalized treatment plans, and drug discovery. Machine learning algorithms can analyze medical images, predict patient outcomes, and streamline administrative tasks.'')],
     JObj [(''id'', JNum 11), (''userId'', JNum 5),
           (''title'', JStr ''The Internet of Things Explained''),
           (''body'', JStr ''IoT connects everyday devices to the internet, enabling smart homes, cities, and industries. Sensors and actuators collect and exchange data, creating interconnected systems that improve efficiency and convenience.'')],
     JObj [(''id'', JNum 12), (''userId'', JNum 6),
           (''title'', JStr ''Quantum Computing: A New Era''),
           (''body'', JStr ''Quantum computing harnesses quantum mechanics to perform computations exponentially faster than classical computers. It has potential applications in cryptography, drug discovery, and solving complex optimization problems.'')],
     JObj [(''id'', JNum 13), (''userId'', JNum 1),
           (''title'', JStr ''Software Engineering Principles''),
           (''body'', JStr ''Good software engineering involves writing maintainable, scalable, and efficient code. Key principles include SOLID design patterns, test-driven development, and continuous integration and deployment.'')],
     JObj [(''id'', JNum 14), (''userId'', JNum 2),
           (''title'', JStr ''Network Security Essentials''),
           (''body'', JStr ''Network security protects underlying IT infrastructure from unauthorized access. Essential measures include firewalls, intrusion detection systems, encryption, and regular security audits to identify vulnerabilities.'')],
     JObj [(''id'', JNum 15), (''userId'', JNum 3),
           (''title'', JStr ''The Evolution of Social Media''),
           (''body'', JStr ''Social media has transformed how we communicate and share information. Platforms continue to evolve with new features, algorithms, and privacy concerns shaping user behavior and digital marketing strategies.'')],
     JObj [(''id'', JNum 16), (''userId'', JNum 4),
           (''title'', JStr ''Database Management Systems''),
           (''body'', JStr ''Database management systems store, organize, and retrieve data efficiently. Understanding SQL, NoSQL, and database design principles is essential for building robust applications.'')],
     JObj [(''id'', JNum 17), (''userId'', JNum 5),
           (''title'', JStr ''DevOps and Agile Methodologies''),
           (''body'', JStr ''DevOps combines development and operations to deliver software faster and more reliably. Agile methodologies promote iterative development, collaboration, and adaptability in project management.'')],
     JObj [(''id'', JNum 18), (''userId'', JNum 6),
           (''title'', JStr ''Computer Networks Basics''),
           (''body'', JStr ''Computer networks enable devices to communicate and share resources. Understanding protocols, IP addressing, routing, and network topologies is fundamental to IT infrastructure.'')],
     JObj [(''id'', JNum 19), (''userId'', JNum 1),
           (''title'', JStr ''User Experience Design''),
           (''body'', JStr ''UX design focuses on creating products that provide meaningful experiences to users. It involves user research, prototyping, usability testing, and continuous improvement based on user feedback.'')],
     JObj [(''id'', JNum 20), (''userId'', JNum 2),
           (''title'', JStr ''Operating Systems Fundamentals''),
           (''body'', JStr ''Operating systems manage hardware resources and provide services to applications. Understanding process management, memory allocation, file systems, and security is crucial for system development.'')]
    ]"

text \<open>\<^verbatim>\<open>fetchPosts\<close> takes no argument and reads no state; nothing in its
  \<^verbatim>\<open>try\<close> block can throw.\<close>

definition fetchPosts :: "json list result" where
  "fetchPosts = Success samplePosts"

section \<open>The application context and the settings screen\<close>

text \<open>The state of \<^verbatim>\<open>AppProvider\<close>. \<^verbatim>\<open>darkMode\<close> holds whatever
  \<^verbatim>\<open>settings.darkMode || false\<close> gave at launch, which need not be a boolean;
  \<^verbatim>\<open>user\<close> is \<^verbatim>\<open>null\<close> until somebody logs in.\<close>

record app_context =
  darkMode :: json
  notificationsEnabled :: bool
  isLoggedIn :: bool
  user :: json
  isLoading :: bool

definition initial_context :: app_context where
  "initial_context =
     \<lparr>darkMode = JBool False, notificationsEnabled = True, isLoggedIn = False,
      user = JNull, isLoading = True\<rparr>"

definition settings_record :: "bool \<Rightarrow> bool \<Rightarrow> json" where
  "settings_record d n = JObj [(''darkMode'', JBool d), (''notifications'', JBool n)]"

definition toggleDarkMode :: "codec \<Rightarrow> app_context \<times> storage \<Rightarrow> app_context \<times> storage" where
  "toggleDarkMode J cs =
     (case cs of (ctx, st) \<Rightarrow>
        (let newValue = \<not> truthy (darkMode ctx) in
           (ctx\<lparr>darkMode := JBool newValue\<rparr>,
            snd (saveSettings J (settings_record newValue (notificationsEnabled ctx)) st))))"

definition toggleNotifications :: "codec \<Rightarrow> app_context \<times> storage \<Rightarrow> app_context \<times> storage" where
  "toggleNotifications J cs =
     (case cs of (ctx, st) \<Rightarrow>
        (let newValue = \<not> notificationsEnabled ctx in
           (ctx\<lparr>notificationsEnabled := newValue\<rparr>,
            snd (saveSettings J
                   (JObj [(''darkMode'', darkMode ctx), (''notifications'', JBool newValue)]) st))))"

definition setUserData :: "json \<Rightarrow> app_context \<Rightarrow> app_context" where
  "setUserData userData ctx = ctx\<lparr>user := userData, isLoggedIn := True\<rparr>"

definition clearUserData :: "app_context \<Rightarrow> app_context" where
  "clearUserData ctx = ctx\<lparr>user := JNull, isLoggedIn := False\<rparr>"

text \<open>\<^verbatim>\<open>handleLogout\<close> of the settings screen shows an alert with two buttons.
  Cancel does nothing; Logout calls the context's \<^verbatim>\<open>clearUserData\<close> and resets the
  navigation to the login screen. No function of the storage module is called.\<close>

datatype alert_button = Cancel | Logout

definition handleLogout :: "alert_button \<Rightarrow> app_context \<times> storage \<Rightarrow> app_context \<times> storage" where
  "handleLogout button cs =
     (case cs of (ctx, st) \<Rightarrow>
        (case button of
           Cancel \<Rightarrow> (ctx, st)
         | Logout \<Rightarrow> (clearUserData ctx, st)))"

section \<open>A JSON codec\<close>

text \<open>
  One codec that meets \<open>roundtrips\<close>, to run the module on concrete stores: compact
  JSON text (no white space) for the values of type \<open>json\<close>, with decimal integers and
  with the escapes \<^verbatim>\<open>\"\<close> and \<^verbatim>\<open>\\\<close> in strings. The parser takes fuel, one unit
  per nested call; the length of the text is always enough.
\<close>

definition is_digit :: "char \<Rightarrow> bool" where
  "is_digit c = (c \<in> set ''0123456789'')"

definition digit_char :: "nat \<Rightarrow> char" where
  "digit_char d = ''0123456789'' ! d"

definition digit_val :: "char \<Rightarrow> nat" where
  "digit_val c = of_char c - 48"

fun show_nat :: "nat \<Rightarrow> string" where
  "show_nat n = (if n < 10 then [digit_char n] else show_nat (n div 10) @ [digit_char (n mod 10)])"

declare show_nat.simps [simp del]

definition read_nat :: "string \<Rightarrow> nat" where
  "read_nat ds = foldl (\<lambda>a c. 10 * a + digit_val c) 0 ds"

definition show_int :: "int \<Rightarrow> string" where
  "show_int i = (if i < 0 then CHR ''-'' # show_nat (nat (- i)) else show_nat (nat i))"

definition dquote :: char where "dquote = CHR 0x22"
definition backslash :: char where "backslash = CHR 0x5C"

fun escape :: "string \<Rightarrow> string" where
  "escape [] = []"
| "escape (c # cs) =
     (if c = dquote \<or> c = backslash then backslash # c # escape cs else c # escape cs)"

definition quoted :: "string \<Rightarrow> string" where
  "quoted s = dquote # escape s @ [dquote]"

fun read_chars :: "string \<Rightarrow> (string \<times> string) option" where
  "read_chars [] = None"
| "read_chars (c # cs) =
     (if c = dquote then Some ([], cs)
      else if c = backslash then
        (case cs of
           [] \<Rightarrow> None
         | d # ds \<Rightarrow>
             (if d = dquote \<or> d = backslash
              then (case read_chars ds of None \<Rightarrow> None | Some (s, r) \<Rightarrow> Some (d # s, r))
              else None))
      else (case read_chars cs of None \<Rightarrow> None | Some (s, r) \<Rightarrow> Some (c # s, r)))"

fun ser :: "json \<Rightarrow> string"
  and ser_tail :: "json list \<Rightarrow> string"
  and ser_members :: "(string \<times> json) list \<Rightarrow> string" where
  "ser JNull = ''null''"
| "ser (JBool b) = (if b then ''true'' else ''false'')"
| "ser (JNum i) = show_int i"
| "ser (JStr s) = quoted s"
| "ser (JArr []) = ''[]''"
| "ser (JArr (x # xs)) = CHR ''['' # ser x @ ser_tail xs"
| "ser (JObj []) = ''{}''"
| "ser (JObj ((k, v) # kvs)) = CHR ''{'' # quoted k @ CHR '':'' # ser v @ ser_members kvs"
| "ser_tail [] = '']''"
| "ser_tail (x # xs) = CHR '','' # ser x @ ser_tail xs"
| "ser_members [] = ''}''"
| "ser_members ((k, v) # kvs) = CHR '','' # quoted k @ CHR '':'' # ser v @ ser_members kvs"

fun parse_value :: "nat \<Rightarrow> string \<Rightarrow> (json \<times> string) option"
  and parse_tail :: "nat \<Rightarrow> string \<Rightarrow> (json list \<times> string) option"
  and parse_member :: "nat \<Rightarrow> string \<Rightarrow> ((string \<times> json) \<times> string) option"
  and parse_members :: "nat \<Rightarrow> string \<Rightarrow> ((string \<times> json) list \<times> string) option" where
  "parse_value 0 s = None"
| "parse_value (Suc n) [] = None"
| "parse_value (Suc n) (c # cs) =
     (if c = CHR ''n'' then (if take 3 cs = ''ull'' then Some (JNull, drop 3 cs) else None)
      else if c = CHR ''t'' then (if take 3 cs = ''rue'' then Some (JBool True, drop 3 cs) else None)
      else if c = CHR ''f'' then (if take 4 cs = ''alse'' then Some (JBool False, drop 4 cs) else None)
      else if c = dquote then
        (case read_chars cs of None \<Rightarrow> None | Some (s, r) \<Rightarrow> Some (JStr s, r))
      else if c = CHR ''-'' then
        (if takeWhile is_digit cs = [] then None
         else Some (JNum (- int (read_nat (takeWhile is_digit cs))), dropWhile is_digit cs))
      else if is_digit c then
        Some (JNum (int (read_nat (c # takeWhile is_digit cs))), dropWhile is_digit cs)
      else if c = CHR ''['' then
        (case cs of
           [] \<Rightarrow> None
         | d # ds \<Rightarrow>
             (if d = CHR '']'' then Some (JArr [], ds)
              else (case parse_value n cs of
                      None \<Rightarrow> None
                    | Some (x, r) \<Rightarrow>
                        (case parse_tail n r of
                           None \<Rightarrow> None
                         | Some (xs, r') \<Rightarrow> Some (JArr (x # xs), r')))))
      else if c = CHR ''{'' then
        (case cs of
           [] \<Rightarrow> None
         | d # ds \<Rightarrow>
             (if d = CHR ''}'' then Some (JObj [], ds)
              else (case parse_member n cs of
                      None \<Rightarrow> None
                    | Some (kv, r) \<Rightarrow>
                        (case parse_members n r of
                           None \<Rightarrow> None
                         | Some (kvs, r') \<Rightarrow> Some (JObj (kv # kvs), r')))))
      else None)"
| "parse_tail 0 s = None"
| "parse_tail (Suc n) [] = None"
| "parse_tail (Suc n) (c # cs) =
     (if c = CHR '']'' then Some ([], cs)
      else if c = CHR '','' then
        (case parse_value n cs of
           None \<Rightarrow> None
         | Some (x, r) \<Rightarrow>
             (case parse_tail n r of
                None \<Rightarrow> None
              | Some (xs, r') \<Rightarrow> Some (x # xs, r')))
      else None)"
| "parse_member 0 s = None"
| "parse_member (Suc n) [] = None"
| "parse_member (Suc n) (c # cs) =
     (if c = dquote then
        (case read_chars cs of
           None \<Rightarrow> None
         | Some (k, r) \<Rightarrow>
             (case r of
                [] \<Rightarrow> None
              | d # r1 \<Rightarrow>
                  (if d = CHR '':'' then
                     (case parse_value n r1 of
                        None \<Rightarrow> None
                      | Some (v, r2) \<Rightarrow> Some ((k, v), r2))
                   else None)))
      else None)"
| "parse_members 0 s = None"
| "parse_members (Suc n) [] = None"
| "parse_members (Suc n) (c # cs) =
     (if c = CHR ''}'' then Some ([], cs)
      else if c = CHR '','' then
        (case parse_member n cs of
           None \<Rightarrow> None
         | Some (kv, r) \<Rightarrow>
             (case parse_members n r of
                None \<Rightarrow> None
              | Some (kvs, r') \<Rightarrow> Some (kv # kvs, r')))
      else None)"

definition parse_text :: "string \<Rightarrow> json option" where
  "parse_text s =
     (case parse_value (Suc (length s)) s of
        Some (v, []) \<Rightarrow> Some v
      | _ \<Rightarrow> None)"

definition compact_JSON :: codec where
  "compact_JSON = \<lparr>stringify = ser, parse = parse_text\<rparr>"

text \<open>What may follow a number in a text: anything but a digit.\<close>

definition follow_ok :: "string \<Rightarrow> bool" where
  "follow_ok r = (case r of [] \<Rightarrow> True | c # cs \<Rightarrow> \<not> is_digit c)"

section \<open>Notions the properties are stated with\<close>

text \<open>The device lets the next AsyncStorage call through.\<close>

definition accepts :: "storage \<Rightarrow> bool" where
  "accepts st = (case faults st of [] \<Rightarrow> True | f # fs \<Rightarrow> f = None)"

text \<open>The device rejects none of the coming calls.\<close>

definition quiet :: "storage \<Rightarrow> bool" where
  "quiet st = list_all (\<lambda>f. f = None) (faults st)"

text \<open>What \<^verbatim>\<open>getFavorites\<close> makes of the store when its read is not rejected.\<close>

definition stored_favorites :: "codec \<Rightarrow> storage \<Rightarrow> json" where
  "stored_favorites J st = fst (getFavorites J (st\<lparr>faults := []\<rparr>))"

text \<open>The \<^verbatim>\<open>id\<close> the callbacks read from an entry; \<open>None\<close> is \<^verbatim>\<open>undefined\<close>.\<close>

definition prop_id :: "json \<Rightarrow> json option" where
  "prop_id v = (case get_prop v ''id'' of Inl e \<Rightarrow> None | Inr i \<Rightarrow> i)"

text \<open>An id that \<^verbatim>\<open>===\<close> compares by value: \<^verbatim>\<open>undefined\<close>, \<^verbatim>\<open>null\<close>, a boolean,
  a number or a string.\<close>

fun is_primitive :: "json option \<Rightarrow> bool" where
  "is_primitive None = True"
| "is_primitive (Some (JArr xs)) = False"
| "is_primitive (Some (JObj kvs)) = False"
| "is_primitive (Some v) = True"

text \<open>A post: an object whose id is compared by value.\<close>

definition is_post :: "json \<Rightarrow> bool" where
  "is_post v = (case v of JObj kvs \<Rightarrow> is_primitive (map_of kvs ''id'') | _ \<Rightarrow> False)"

text \<open>The stored favorites are a list of posts with at most one entry per id.\<close>

definition unique_ids :: "codec \<Rightarrow> storage \<Rightarrow> bool" where
  "unique_ids J st =
     (case stored_favorites J st of
        JArr xs \<Rightarrow> list_all is_post xs \<and> distinct (map prop_id xs)
      | _ \<Rightarrow> False)"

text \<open>Sequences of favorites operations, each run on the store the one before left.\<close>

datatype fav_op = Add json | Remove "json option"

fun run_op :: "codec \<Rightarrow> fav_op \<Rightarrow> storage \<Rightarrow> storage" where
  "run_op J (Add post) st = snd (addToFavorites J post st)"
| "run_op J (Remove postId) st = snd (removeFromFavorites J postId st)"

definition run_ops :: "codec \<Rightarrow> fav_op list \<Rightarrow> storage \<Rightarrow> storage" where
  "run_ops J ops st = fold (run_op J) ops st"

fun adds_post :: "fav_op \<Rightarrow> bool" where
  "adds_post (Add post) = is_post post"
| "adds_post (Remove postId) = True"

text \<open>The shape of a post record of the API module.\<close>

definition is_post_record :: "json \<Rightarrow> bool" where
  "is_post_record v =
     (\<exists>i u t b. v = JObj [(''id'', JNum i), (''userId'', JNum u),
                          (''title'', JStr t), (''body'', JStr b)])"

text \<open>\<open>unreadable J st k\<close>: nothing is stored under \<open>k\<close>, or what is stored is the
  empty string (which is no JSON text, and which the readers do not even parse), or it
  makes \<^verbatim>\<open>JSON.parse\<close> throw.\<close>

definition unreadable :: "codec \<Rightarrow> storage \<Rightarrow> string \<Rightarrow> bool" where
  "unreadable J st k =
     (case items st k of None \<Rightarrow> True | Some s \<Rightarrow> s = [] \<or> parse J s = None)"

text \<open>Stores and values to run the module on.\<close>

definition store_of :: "(string \<times> string) list \<Rightarrow> string option list \<Rightarrow> storage" where
  "store_of kvs fs = \<lparr>items = map_of kvs, faults = fs\<rparr>"

definition example_user :: json where
  "example_user =
     JObj [(''username'', JStr ''ada''), (''email'', JStr ''ada@example.com''),
           (''password'', JStr ''s3cret'')]"

definition example_post :: "int \<Rightarrow> string \<Rightarrow> json" where
  "example_post i t =
     JObj [(''id'', JNum i), (''userId'', JNum 1), (''title'', JStr t), (''body'', JStr ''...'')]"

text \<open>A store after a signup: the user record and the login flag are written.\<close>

definition logged_in_store :: storage where
  "logged_in_store = store_of [(KEYS_USER, ser example_user), (KEYS_IS_LOGGED_IN, ''true'')] []"

text \<open>Two favorites, and a store that holds them, with the faults to come.\<close>

definition two_favorites :: "json list" where
  "two_favorites = [example_post 1 ''first'', example_post 2 ''second'']"

text \<open>The store of the two favorites; \<open>fs\<close> is what the device does to the coming calls.\<close>

definition favorites_store :: "string option list \<Rightarrow> storage" where
  "favorites_store fs = store_of [(KEYS_FAVORITES, ser (JArr two_favorites))] fs"

text \<open>A run of favorites operations: two posts, a second post with the id of the first,
  a removal.\<close>

definition example_ops :: "fav_op list" where
  "example_ops =
     [Add (example_post 1 ''first''), Add (example_post 2 ''second''),
      Add (example_post 1 ''again''), Remove (Some (JNum 2))]"

section \<open>The codec parses what it prints\<close>

lemma digit_char_ok: "d < 10 \<Longrightarrow> is_digit (digit_char d) \<and> digit_val (digit_char d) = d"
proof -
  assume "d < 10"
  then have "d \<in> {0, 1, 2, 3, 4, 5, 6, 7, 8, 9}" by auto
  then show ?thesis
    by (auto simp: is_digit_def digit_char_def digit_val_def)
qed

lemma show_nat_digits: "list_all is_digit (show_nat n)"
proof (induction n rule: show_nat.induct)
  case (1 n)
  then show ?case
    by (subst show_nat.simps) (auto simp: digit_char_ok)
qed

lemma show_nat_nonempty: "show_nat n \<noteq> []"
  by (subst show_nat.simps) simp

lemma read_nat_show_nat: "read_nat (show_nat n) = n"
proof (induction n rule: show_nat.induct)
  case (1 n)
  show ?case
  proof (cases "n < 10")
    case True
    then show ?thesis
      by (subst show_nat.simps) (simp add: read_nat_def digit_char_ok)
  next
    case False
    with 1 have "read_nat (show_nat (n div 10)) = n div 10" by simp
    with False show ?thesis
      by (subst show_nat.simps) (simp add: read_nat_def digit_char_ok)
  qed
qed

lemma takeWhile_digits:
  "list_all is_digit ds \<Longrightarrow> follow_ok r \<Longrightarrow> takeWhile is_digit (ds @ r) = ds"
  by (induction ds) (auto simp: follow_ok_def split: list.splits)

lemma dropWhile_digits:
  "list_all is_digit ds \<Longrightarrow> follow_ok r \<Longrightarrow> dropWhile is_digit (ds @ r) = r"
  by (induction ds) (auto simp: follow_ok_def split: list.splits)

lemma read_chars_escape: "read_chars (escape s @ dquote # r) = Some (s, r)"
  by (induction s) (auto simp: dquote_def backslash_def)

lemma follow_tail: "follow_ok (ser_tail xs @ r)"
  by (cases xs) (simp_all add: follow_ok_def is_digit_def)

lemma follow_members: "follow_ok (ser_members kvs @ r)"
  by (cases kvs) (auto simp: follow_ok_def is_digit_def)

lemma show_nat_first: "\<exists>c cs. show_nat n = c # cs \<and> is_digit c"
  using show_nat_digits [of n] show_nat_nonempty [of n]
  by (cases "show_nat n") auto

lemma ser_first: "\<exists>c cs. ser v = c # cs \<and> c \<noteq> CHR '']''"
proof (cases v)
  case (JNum i)
  obtain c cs where "show_nat (nat \<bar>i\<bar>) = c # cs" "is_digit c"
    using show_nat_first by blast
  then show ?thesis
    using JNum by (cases "i < 0") (auto simp: show_int_def is_digit_def abs_if)
next
  case (JArr xs)
  then show ?thesis by (cases xs) auto
next
  case (JObj kvs)
  then show ?thesis by (cases kvs) auto
qed (auto simp: quoted_def dquote_def)

lemma parse_number:
  "follow_ok r \<Longrightarrow> parse_value (Suc n) (show_int i @ r) = Some (JNum i, r)"
proof (cases "i < 0")
  case True
  assume r: "follow_ok r"
  have "takeWhile is_digit (show_nat (nat (- i)) @ r) = show_nat (nat (- i))"
    and "dropWhile is_digit (show_nat (nat (- i)) @ r) = r"
    using r by (simp_all add: takeWhile_digits dropWhile_digits show_nat_digits)
  with True show ?thesis
    by (simp add: show_int_def dquote_def show_nat_nonempty read_nat_show_nat)
next
  case False
  assume r: "follow_ok r"
  obtain c cs where c: "show_nat (nat i) = c # cs" "is_digit c"
    using show_nat_first by blast
  have da: "list_all is_digit cs"
    using show_nat_digits [of "nat i"] c(1) by simp
  have tw: "takeWhile is_digit (cs @ r) = cs" and dw: "dropWhile is_digit (cs @ r) = r"
    using r da by (simp_all add: takeWhile_digits dropWhile_digits)
  have ne: "c \<noteq> CHR ''n''" "c \<noteq> CHR ''t''" "c \<noteq> CHR ''f''" "c \<noteq> dquote" "c \<noteq> CHR ''-''"
    using c(2) by (auto simp: is_digit_def dquote_def)
  have pv: "parse_value (Suc n) ((c # cs) @ r) = Some (JNum (int (read_nat (c # cs))), r)"
    using ne c(2) tw dw by simp
  have "read_nat (c # cs) = nat i"
    using read_nat_show_nat [of "nat i"] c(1) by simp
  with pv False show ?thesis
    by (simp add: show_int_def c(1))
qed

lemma parse_ser:
  "\<And>n r. length (ser v) \<le> n \<Longrightarrow> follow_ok r \<Longrightarrow> parse_value n (ser v @ r) = Some (v, r)"
  "\<And>n r. length (ser_tail xs) \<le> n \<Longrightarrow> parse_tail n (ser_tail xs @ r) = Some (xs, r)"
  "\<And>n r. length (ser_members kvs) \<le> n \<Longrightarrow> parse_members n (ser_members kvs @ r) = Some (kvs, r)"
proof (induction v and xs and kvs rule: ser_ser_tail_ser_members.induct)
  case 1
  then show ?case by (cases n) simp_all
next
  case (2 b)
  then show ?case by (cases n; cases b) simp_all
next
  case (3 i)
  have "show_int i \<noteq> []"
    by (simp add: show_int_def show_nat_nonempty)
  with 3 obtain m where "n = Suc m" by (cases n) auto
  with 3 show ?case by (simp add: parse_number)
next
  case (4 s)
  then show ?case
    by (cases n) (simp_all add: quoted_def dquote_def read_chars_escape [unfolded dquote_def])
next
  case 5
  then show ?case by (cases n) (simp_all add: dquote_def is_digit_def)
next
  case (6 x xs)
  then obtain m where n: "n = Suc m" by (cases n) auto
  obtain c cs where c: "ser x = c # cs" "c \<noteq> CHR '']''"
    using ser_first by blast
  from 6(3) n have lx: "length (ser x) \<le> m" and lt: "length (ser_tail xs) \<le> m" by simp_all
  have px: "parse_value m (ser x @ ser_tail xs @ r) = Some (x, ser_tail xs @ r)"
    using 6(1) [OF lx follow_tail] .
  have pt: "parse_tail m (ser_tail xs @ r) = Some (xs, r)"
    using 6(2) [OF lt] .
  show ?case
    using px pt c by (simp add: n dquote_def is_digit_def)
next
  case 7
  then show ?case by (cases n) (simp_all add: dquote_def is_digit_def)
next
  case (8 k v kvs)
  then obtain m where n: "n = Suc m" by (cases n) auto
  from 8(3) n obtain m' where m: "m = Suc m'" by (cases m) (auto simp: quoted_def)
  from 8(3) n m have lv: "length (ser v) \<le> m'" and lm: "length (ser_members kvs) \<le> m"
    by (simp_all add: quoted_def)
  have pv: "parse_value m' (ser v @ ser_members kvs @ r) = Some (v, ser_members kvs @ r)"
    using 8(1) [OF lv follow_members] .
  have pm: "parse_members m (ser_members kvs @ r) = Some (kvs, r)"
    using 8(2) [OF lm] .
  have "parse_member m (quoted k @ CHR '':'' # ser v @ ser_members kvs @ r)
          = Some ((k, v), ser_members kvs @ r)"
    using pv by (simp add: m quoted_def read_chars_escape)
  then show ?case
    using pm by (simp add: n dquote_def is_digit_def quoted_def)
next
  case 9
  then show ?case by (cases n) simp_all
next
  case (10 x xs)
  then obtain m where n: "n = Suc m" by (cases n) auto
  from 10(3) n have lx: "length (ser x) \<le> m" and lt: "length (ser_tail xs) \<le> m" by simp_all
  have px: "parse_value m (ser x @ ser_tail xs @ r) = Some (x, ser_tail xs @ r)"
    using 10(1) [OF lx follow_tail] .
  have pt: "parse_tail m (ser_tail xs @ r) = Some (xs, r)"
    using 10(2) [OF lt] .
  show ?case using px pt by (simp add: n)
next
  case 11
  then show ?case by (cases n) simp_all
next
  case (12 k v kvs)
  then obtain m where n: "n = Suc m" by (cases n) auto
  from 12(3) n obtain m' where m: "m = Suc m'" by (cases m) (auto simp: quoted_def)
  from 12(3) n m have lv: "length (ser v) \<le> m'" and lm: "length (ser_members kvs) \<le> m"
    by (simp_all add: quoted_def)
  have pv: "parse_value m' (ser v @ ser_members kvs @ r) = Some (v, ser_members kvs @ r)"
    using 12(1) [OF lv follow_members] .
  have pm: "parse_members m (ser_members kvs @ r) = Some (kvs, r)"
    using 12(2) [OF lm] .
  have "parse_member m (quoted k @ CHR '':'' # ser v @ ser_members kvs @ r)
          = Some ((k, v), ser_members kvs @ r)"
    using pv by (simp add: m quoted_def read_chars_escape)
  then show ?case
    using pm by (simp add: n)
qed

lemma ser_nonempty: "ser v \<noteq> []"
  using ser_first [of v] by auto

lemma parse_text_ser: "parse_text (ser v) = Some v"
  using parse_ser(1) [of v "Suc (length (ser v))" "[]"]
  by (simp add: parse_text_def follow_ok_def)

lemma compact_JSON_roundtrips: "roundtrips compact_JSON"
  by (simp add: roundtrips_def compact_JSON_def ser_nonempty parse_text_ser)

section \<open>How the module reads and writes the store\<close>

text \<open>
  Each AsyncStorage call either goes through or is rejected, and uses up one entry of the
  fault list. The lemmas below say what each function of the module returns in the two
  cases, and what the array callbacks compute on a list of posts.
\<close>

lemmas key_defs = KEYS_USER_def KEYS_FAVORITES_def KEYS_SETTINGS_def KEYS_IS_LOGGED_IN_def

lemma next_fault_eq:
  "next_fault st = (if accepts st then None else hd (faults st), st\<lparr>faults := tl (faults st)\<rparr>)"
  by (cases "faults st") (simp_all add: next_fault_def accepts_def)

lemma getItem_accepts:
  "accepts st \<Longrightarrow> getItem k st = (Inr (items st k), st\<lparr>faults := tl (faults st)\<rparr>)"
  by (simp add: getItem_def next_fault_eq)

lemma getItem_rejects:
  "\<not> accepts st \<Longrightarrow> \<exists>m. getItem k st = (Inl (Error m), st\<lparr>faults := tl (faults st)\<rparr>)"
  by (cases "faults st") (auto simp: getItem_def next_fault_def accepts_def)

lemma setItem_accepts:
  "accepts st \<Longrightarrow>
   setItem k v st = (Inr (), \<lparr>items = (items st)(k := Some v), faults = tl (faults st)\<rparr>)"
  by (simp add: setItem_def next_fault_eq)

lemma setItem_rejects:
  "\<not> accepts st \<Longrightarrow> \<exists>m. setItem k v st = (Inl (Error m), st\<lparr>faults := tl (faults st)\<rparr>)"
  by (cases "faults st") (auto simp: setItem_def next_fault_def accepts_def)

lemma getUserData_accepts:
  "accepts st \<Longrightarrow>
   fst (getUserData J st) =
     (case items st KEYS_USER of
        None \<Rightarrow> JNull
      | Some s \<Rightarrow> if s = [] then JNull else (case parse J s of None \<Rightarrow> JNull | Some v \<Rightarrow> v))"
  by (simp add: getUserData_def getItem_accepts split: option.splits)

lemma getUserData_rejects: "\<not> accepts st \<Longrightarrow> fst (getUserData J st) = JNull"
  using getItem_rejects [of st KEYS_USER] by (auto simp: getUserData_def)

lemma getUserData_store: "snd (getUserData J st) = st\<lparr>faults := tl (faults st)\<rparr>"
  by (cases "accepts st")
     (use getItem_rejects [of st KEYS_USER] in
       \<open>auto simp: getUserData_def getItem_accepts split: option.splits\<close>)

lemma strict_eq_primitive: "is_primitive b \<Longrightarrow> strict_eq a b = (a = b)"
  by (induction a b rule: strict_eq.induct) auto

lemma strict_eq_sym: "strict_eq a b = strict_eq b a"
  by (induction a b rule: strict_eq.induct) auto

lemma validateUser_result:
  "fst (validateUser J email password st) =
     (if get_prop (fst (getUserData J st)) ''email'' = Inr (Some (JStr email)) \<and>
         get_prop (fst (getUserData J st)) ''password'' = Inr (Some (JStr password))
      then Success (fst (getUserData J st))
      else Failure (Literal ''Invalid email or password''))"
proof (cases "fst (getUserData J st)")
  case (JObj kvs)
  then show ?thesis
    by (cases "map_of kvs ''email''"; cases "map_of kvs ''password''")
     (auto simp: validateUser_def strict_eq_primitive split: prod.splits)
qed (auto simp: validateUser_def strict_eq_primitive split: prod.splits)

lemma getFavorites_accepts:
  "accepts st \<Longrightarrow>
   fst (getFavorites J st) =
     (case items st KEYS_FAVORITES of
        None \<Rightarrow> JArr []
      | Some s \<Rightarrow> if s = [] then JArr [] else (case parse J s of None \<Rightarrow> JArr [] | Some v \<Rightarrow> v))"
  by (simp add: getFavorites_def getItem_accepts split: option.splits)

lemma getFavorites_rejects: "\<not> accepts st \<Longrightarrow> fst (getFavorites J st) = JArr []"
  using getItem_rejects [of st KEYS_FAVORITES] by (auto simp: getFavorites_def)

lemma getFavorites_store: "snd (getFavorites J st) = st\<lparr>faults := tl (faults st)\<rparr>"
  by (cases "accepts st")
     (use getItem_rejects [of st KEYS_FAVORITES] in
       \<open>auto simp: getFavorites_def getItem_accepts split: option.splits\<close>)

lemma getSettings_accepts:
  "accepts st \<Longrightarrow>
   fst (getSettings J st) =
     (case items st KEYS_SETTINGS of
        None \<Rightarrow> default_settings
      | Some s \<Rightarrow>
          if s = [] then default_settings
          else (case parse J s of None \<Rightarrow> default_settings | Some v \<Rightarrow> v))"
  by (simp add: getSettings_def getItem_accepts split: option.splits)

lemma getSettings_rejects: "\<not> accepts st \<Longrightarrow> fst (getSettings J st) = default_settings"
  using getItem_rejects [of st KEYS_SETTINGS] by (auto simp: getSettings_def)

lemma checkLoginStatus_accepts:
  "accepts st \<Longrightarrow> fst (checkLoginStatus st) = (items st KEYS_IS_LOGGED_IN = Some ''true'')"
  by (simp add: checkLoginStatus_def getItem_accepts)

lemma checkLoginStatus_rejects: "\<not> accepts st \<Longrightarrow> fst (checkLoginStatus st) = False"
  using getItem_rejects [of st KEYS_IS_LOGGED_IN] by (auto simp: checkLoginStatus_def)

lemma getSettings_unreadable:
  "unreadable J st KEYS_SETTINGS \<Longrightarrow> fst (getSettings J st) = default_settings"
  by (cases "accepts st")
     (auto simp: unreadable_def getSettings_accepts getSettings_rejects split: option.splits)

lemma getFavorites_unreadable:
  "unreadable J st KEYS_FAVORITES \<Longrightarrow> fst (getFavorites J st) = JArr []"
  by (cases "accepts st")
     (auto simp: unreadable_def getFavorites_accepts getFavorites_rejects split: option.splits)

lemma getUserData_unreadable:
  "unreadable J st KEYS_USER \<Longrightarrow> fst (getUserData J st) = JNull"
  by (cases "accepts st")
     (auto simp: unreadable_def getUserData_accepts getUserData_rejects split: option.splits)

lemma checkLoginStatus_unreadable:
  "unreadable J st KEYS_IS_LOGGED_IN \<Longrightarrow> parse J ''true'' \<noteq> None \<Longrightarrow>
   fst (checkLoginStatus st) = False"
  by (cases "accepts st")
     (auto simp: unreadable_def checkLoginStatus_accepts checkLoginStatus_rejects
        split: option.splits)

lemma parse_text_true: "parse_text ''true'' = Some (JBool True)"
  using parse_text_ser [of "JBool True"] by simp

lemma parse_text_oops: "parse_text ''oops'' = None"
  by (simp add: parse_text_def is_digit_def dquote_def)

lemma saveUserData_Success:
  "fst (saveUserData J userData st) = Success () \<Longrightarrow>
   items (snd (saveUserData J userData st)) =
     (items st)(KEYS_USER := Some (stringify J userData), KEYS_IS_LOGGED_IN := Some ''true'')"
proof -
  assume ok: "fst (saveUserData J userData st) = Success ()"
  obtain r1 st1 where s1: "setItem KEYS_USER (stringify J userData) st = (r1, st1)"
    by (cases "setItem KEYS_USER (stringify J userData) st")
  obtain r2 st2 where s2: "setItem KEYS_IS_LOGGED_IN ''true'' st1 = (r2, st2)"
    by (cases "setItem KEYS_IS_LOGGED_IN ''true'' st1")
  from ok s1 s2 have r: "r1 = Inr ()" "r2 = Inr ()"
    by (auto simp: saveUserData_def split: sum.splits)
  have a1: "accepts st"
    using setItem_rejects [of st KEYS_USER "stringify J userData"] s1 r(1) by auto
  have a2: "accepts st1"
    using setItem_rejects [of st1 KEYS_IS_LOGGED_IN "''true''"] s2 r(2) by auto
  from a1 s1 have i1: "items st1 = (items st)(KEYS_USER := Some (stringify J userData))"
    by (auto simp: setItem_accepts)
  from a2 s2 have i2: "items st2 = (items st1)(KEYS_IS_LOGGED_IN := Some ''true'')"
    by (auto simp: setItem_accepts)
  from s1 s2 r have "snd (saveUserData J userData st) = st2"
    by (simp add: saveUserData_def)
  with i1 i2 show ?thesis by simp
qed

lemma saveSettings_accepts:
  "accepts st \<Longrightarrow>
   snd (saveSettings J v st) =
     \<lparr>items = (items st)(KEYS_SETTINGS := Some (stringify J v)), faults = tl (faults st)\<rparr>"
  by (simp add: saveSettings_def setItem_accepts)

lemma getUserData_logged_in_store:
  "fst (getUserData compact_JSON logged_in_store) = example_user"
proof -
  have a: "accepts logged_in_store" by (simp add: accepts_def logged_in_store_def store_of_def)
  have i: "items logged_in_store KEYS_USER = Some (ser example_user)"
    by (simp add: logged_in_store_def store_of_def)
  show ?thesis
    by (simp add: getUserData_accepts [OF a] i ser_nonempty compact_JSON_def parse_text_ser)
qed

lemma handleLogout_store: "snd (handleLogout b (ctx, st)) = st"
  by (cases b) (simp_all add: handleLogout_def)

lemma logoutUser_user: "items (snd (logoutUser st)) KEYS_USER = items st KEYS_USER"
  by (cases "accepts st")
     (use setItem_rejects [of st KEYS_IS_LOGGED_IN "''false''"] in
       \<open>auto simp: logoutUser_def setItem_accepts key_defs\<close>)

lemma get_prop_id: "v \<noteq> JNull \<Longrightarrow> get_prop v ''id'' = Inr (prop_id v)"
  by (cases v) (simp_all add: prop_id_def)

lemma Array_filter_ids:
  "JNull \<notin> set xs \<Longrightarrow> is_primitive i \<Longrightarrow>
   Array_filter (id_is_not i) xs = Inr (filter (\<lambda>v. prop_id v \<noteq> i) xs)"
  by (induction xs) (auto simp: id_is_not_def get_prop_id strict_eq_primitive)

lemma Array_some_ids:
  "JNull \<notin> set xs \<Longrightarrow> is_primitive i \<Longrightarrow>
   Array_some (id_is i) xs = Inr (i \<in> prop_id ` set xs)"
  by (induction xs) (auto simp: id_is_def get_prop_id strict_eq_primitive split: bool.splits)

lemma Array_find_ids:
  "JNull \<notin> set xs \<Longrightarrow> post \<noteq> JNull \<Longrightarrow> is_primitive (prop_id post) \<Longrightarrow>
   Array_find (same_id post) xs = Inr (List.find (\<lambda>v. prop_id v = prop_id post) xs)"
  by (induction xs) (auto simp: same_id_def get_prop_id strict_eq_primitive)

lemma is_post_facts: "is_post v \<Longrightarrow> v \<noteq> JNull \<and> truthy v \<and> is_primitive (prop_id v)"
  by (cases v) (simp_all add: is_post_def prop_id_def)

lemma posts_not_null: "list_all is_post xs \<Longrightarrow> JNull \<notin> set xs"
  by (induction xs) (auto simp: is_post_def)

lemma stored_favorites_eq:
  "stored_favorites J st =
     (case items st KEYS_FAVORITES of
        None \<Rightarrow> JArr []
      | Some s \<Rightarrow> if s = [] then JArr [] else (case parse J s of None \<Rightarrow> JArr [] | Some v \<Rightarrow> v))"
  by (simp add: stored_favorites_def getFavorites_accepts accepts_def)

lemma getFavorites_read:
  "accepts st \<Longrightarrow> fst (getFavorites J st) = stored_favorites J st"
  by (simp add: getFavorites_accepts stored_favorites_eq)

lemma stored_favorites_written:
  "roundtrips J \<Longrightarrow> items st KEYS_FAVORITES = Some (stringify J v) \<Longrightarrow>
   stored_favorites J st = v"
  by (simp add: stored_favorites_eq roundtrips_def)

lemma stored_favorites_same:
  "items st' KEYS_FAVORITES = items st KEYS_FAVORITES \<Longrightarrow>
   stored_favorites J st' = stored_favorites J st"
  by (simp add: stored_favorites_eq)

lemma saveFavorites_accepts:
  "accepts st \<Longrightarrow>
   saveFavorites J v st =
     (Success (), \<lparr>items = (items st)(KEYS_FAVORITES := Some (stringify J v)),
                   faults = tl (faults st)\<rparr>)"
  by (simp add: saveFavorites_def setItem_accepts)

lemma saveFavorites_rejects:
  "\<not> accepts st \<Longrightarrow> snd (saveFavorites J v st) = st\<lparr>faults := tl (faults st)\<rparr>"
  using setItem_rejects [of st KEYS_FAVORITES "stringify J v"]
  by (auto simp: saveFavorites_def)

lemma favorites_store_stored:
  "stored_favorites compact_JSON (favorites_store fs) = JArr two_favorites"
  by (rule stored_favorites_written [OF compact_JSON_roundtrips])
     (simp add: favorites_store_def store_of_def compact_JSON_def)

lemma two_favorites_ids:
  "JNull \<notin> set two_favorites" "list_all is_post two_favorites"
  "map prop_id two_favorites = [Some (JNum 1), Some (JNum 2)]"
  by (simp_all add: two_favorites_def example_post_def is_post_def prop_id_def)

lemma quiet_accepts: "quiet st \<Longrightarrow> accepts st"
  by (cases "faults st") (simp_all add: quiet_def accepts_def)

lemma quiet_tl: "quiet st \<Longrightarrow> faults st' = tl (faults st) \<Longrightarrow> quiet st'"
  by (cases "faults st") (simp_all add: quiet_def)

lemma removeFromFavorites_accepted:
  assumes a1: "accepts st" and a2: "accepts (st\<lparr>faults := tl (faults st)\<rparr>)"
    and s: "stored_favorites J st = JArr xs" and n: "JNull \<notin> set xs"
    and p: "is_primitive postId"
  shows "removeFromFavorites J postId st =
     (Success (),
      \<lparr>items = (items st)(KEYS_FAVORITES :=
                  Some (stringify J (JArr (filter (\<lambda>v. prop_id v \<noteq> postId) xs)))),
       faults = tl (tl (faults st))\<rparr>)"
proof -
  have g: "getFavorites J st = (JArr xs, st\<lparr>faults := tl (faults st)\<rparr>)"
    using getFavorites_read [OF a1, of J] s getFavorites_store [of J st]
    by (cases "getFavorites J st") simp
  show ?thesis
    by (simp add: removeFromFavorites_def g Array_filter_ids [OF n p] saveFavorites_accepts [OF a2])
qed

lemma strict_eq_primitive_left: "is_primitive a \<Longrightarrow> strict_eq a b = (a = b)"
  using strict_eq_primitive [of a b] strict_eq_sym [of a b] by auto

lemma Array_filter_posts:
  "list_all is_post xs \<Longrightarrow>
   Array_filter (id_is_not i) xs = Inr (filter (\<lambda>v. prop_id v \<noteq> i) xs)"
  by (induction xs)
     (auto simp: id_is_not_def get_prop_id strict_eq_primitive_left dest: is_post_facts)

lemma Array_find_posts:
  "list_all is_post xs \<Longrightarrow> is_post post \<Longrightarrow>
   Array_find (same_id post) xs = Inr (List.find (\<lambda>v. prop_id v = prop_id post) xs)"
  using Array_find_ids [of xs post] posts_not_null [of xs] is_post_facts [of post] by simp

lemma find_post_truthy:
  "list_all is_post xs \<Longrightarrow> List.find P xs = Some item \<Longrightarrow> truthy item"
  by (induction xs) (auto dest: is_post_facts split: if_splits)

lemma find_id_None:
  "(List.find (\<lambda>v. prop_id v = i) xs = None) = (i \<notin> prop_id ` set xs)"
  by (auto simp: find_None_iff)

lemma unique_ids_iff:
  "unique_ids J st =
     (\<exists>xs. stored_favorites J st = JArr xs \<and> list_all is_post xs \<and> distinct (map prop_id xs))"
  by (auto simp: unique_ids_def split: json.splits)

lemma unique_ids_same:
  "items st' KEYS_FAVORITES = items st KEYS_FAVORITES \<Longrightarrow> unique_ids J st' = unique_ids J st"
  by (simp add: unique_ids_def stored_favorites_same [of st' st])

lemma unique_ids_written:
  "roundtrips J \<Longrightarrow> items st KEYS_FAVORITES = Some (stringify J (JArr ys)) \<Longrightarrow>
   unique_ids J st = (list_all is_post ys \<and> distinct (map prop_id ys))"
  by (simp add: unique_ids_def stored_favorites_written)

lemma getFavorites_unique:
  assumes "unique_ids J st"
  shows "\<exists>ys. getFavorites J st = (JArr ys, st\<lparr>faults := tl (faults st)\<rparr>) \<and>
           list_all is_post ys \<and> distinct (map prop_id ys) \<and>
           (accepts st \<longrightarrow> stored_favorites J st = JArr ys)"
proof (cases "accepts st")
  case True
  from assms obtain xs where "stored_favorites J st = JArr xs" "list_all is_post xs"
    "distinct (map prop_id xs)" by (auto simp: unique_ids_iff)
  then show ?thesis
    using getFavorites_read [OF True, of J] getFavorites_store [of J st]
    by (cases "getFavorites J st") simp
next
  case False
  then show ?thesis
    using getFavorites_rejects [OF False, of J] getFavorites_store [of J st]
    by (cases "getFavorites J st") simp
qed

lemma saveFavorites_unique:
  assumes r: "roundtrips J" and u: "unique_ids J st"
    and ys: "list_all is_post ys" "distinct (map prop_id ys)"
  shows "unique_ids J (snd (saveFavorites J (JArr ys) st))"
proof (cases "accepts st")
  case True
  show ?thesis
    by (simp add: saveFavorites_accepts [OF True] unique_ids_written [OF r] ys)
next
  case False
  have "unique_ids J (st\<lparr>faults := tl (faults st)\<rparr>) = unique_ids J st"
    by (rule unique_ids_same) simp
  with u show ?thesis
    by (simp add: saveFavorites_rejects [OF False])
qed

lemma addToFavorites_unique:
  assumes r: "roundtrips J" and u: "unique_ids J st" and p: "is_post post"
  shows "unique_ids J (snd (addToFavorites J post st))"
proof -
  let ?st1 = "st\<lparr>faults := tl (faults st)\<rparr>"
  from getFavorites_unique [OF u] obtain ys
    where g: "getFavorites J st = (JArr ys, ?st1)"
      and ys: "list_all is_post ys" "distinct (map prop_id ys)" by blast
  have u1: "unique_ids J ?st1" using u by (simp add: unique_ids_same [of ?st1 st])
  show ?thesis
  proof (cases "List.find (\<lambda>v. prop_id v = prop_id post) ys")
    case None
    then have new: "prop_id post \<notin> prop_id ` set ys" by (simp add: find_id_None)
    have "list_all is_post (ys @ [post])" "distinct (map prop_id (ys @ [post]))"
      using ys p new by simp_all
    then have "unique_ids J (snd (saveFavorites J (JArr (ys @ [post])) ?st1))"
      by (rule saveFavorites_unique [OF r u1])
    then show ?thesis
      by (simp add: addToFavorites_def g Array_find_posts [OF ys(1) p] None case_prod_unfold)
  next
    case (Some item)
    then have "truthy item" using ys(1) by (rule find_post_truthy [rotated])
    then show ?thesis
      using u1 by (simp add: addToFavorites_def g Array_find_posts [OF ys(1) p] Some)
  qed
qed

lemma removeFromFavorites_unique:
  assumes r: "roundtrips J" and u: "unique_ids J st"
  shows "unique_ids J (snd (removeFromFavorites J postId st))"
proof -
  let ?st1 = "st\<lparr>faults := tl (faults st)\<rparr>"
  from getFavorites_unique [OF u] obtain ys
    where g: "getFavorites J st = (JArr ys, ?st1)"
      and ys: "list_all is_post ys" "distinct (map prop_id ys)" by blast
  have u1: "unique_ids J ?st1" using u by (simp add: unique_ids_same [of ?st1 st])
  let ?zs = "filter (\<lambda>v. prop_id v \<noteq> postId) ys"
  have "list_all is_post ?zs" "distinct (map prop_id ?zs)"
    using ys by (simp_all add: list_all_iff distinct_map_filter)
  then have "unique_ids J (snd (saveFavorites J (JArr ?zs) ?st1))"
    by (rule saveFavorites_unique [OF r u1])
  then show ?thesis
    by (simp add: removeFromFavorites_def g Array_filter_posts [OF ys(1)] case_prod_unfold)
qed

lemma run_ops_unique:
  "roundtrips J \<Longrightarrow> unique_ids J st \<Longrightarrow> list_all adds_post ops \<Longrightarrow>
   unique_ids J (run_ops J ops st)"
proof (induction ops arbitrary: st)
  case Nil
  then show ?case by (simp add: run_ops_def)
next
  case (Cons op ops)
  have step: "unique_ids J (run_op J op st)"
  proof (cases op)
    case (Add post)
    with Cons.prems show ?thesis by (simp add: addToFavorites_unique)
  next
    case (Remove postId)
    with Cons.prems show ?thesis by (simp add: removeFromFavorites_unique)
  qed
  have "list_all adds_post ops" using Cons.prems(3) by simp
  with Cons.IH [OF Cons.prems(1) step] have "unique_ids J (fold (run_op J) ops (run_op J op st))"
    by (simp add: run_ops_def)
  then show ?case by (simp add: run_ops_def)
qed

lemma addToFavorites_accepted:
  assumes a1: "accepts st" and a2: "accepts (st\<lparr>faults := tl (faults st)\<rparr>)"
    and s: "stored_favorites J st = JArr xs" and xs: "list_all is_post xs"
    and p: "is_post post"
  shows "addToFavorites J post st =
     (Success (),
      if prop_id post \<in> prop_id ` set xs then st\<lparr>faults := tl (faults st)\<rparr>
      else \<lparr>items = (items st)(KEYS_FAVORITES := Some (stringify J (JArr (xs @ [post])))),
            faults = tl (tl (faults st))\<rparr>)"
proof -
  have g: "getFavorites J st = (JArr xs, st\<lparr>faults := tl (faults st)\<rparr>)"
    using getFavorites_read [OF a1, of J] s getFavorites_store [of J st]
    by (cases "getFavorites J st") simp
  show ?thesis
  proof (cases "List.find (\<lambda>v. prop_id v = prop_id post) xs")
    case None
    then have "prop_id post \<notin> prop_id ` set xs" by (simp add: find_id_None)
    then show ?thesis
      by (simp add: addToFavorites_def g Array_find_posts [OF xs p] None
            saveFavorites_accepts [OF a2])
  next
    case (Some item)
    then have t: "truthy item" using xs by (rule find_post_truthy [rotated])
    from Some have "prop_id post \<in> prop_id ` set xs"
      using find_id_None [of "prop_id post" xs] by simp
    then show ?thesis
      using t by (simp add: addToFavorites_def g Array_find_posts [OF xs p] Some)
  qed
qed

lemma one_entry:
  "distinct (map f zs) \<Longrightarrow> i \<in> f ` set zs \<Longrightarrow> length (filter (\<lambda>v. f v = i) zs) = 1"
proof (induction zs)
  case Nil
  then show ?case by simp
next
  case (Cons z zs)
  show ?case
  proof (cases "f z = i")
    case True
    from Cons.prems(1) have "f z \<notin> f ` set zs" by simp
    with True have "\<forall>v\<in>set zs. f v \<noteq> i" by (metis image_eqI)
    then have "filter (\<lambda>v. f v = i) zs = []"
      by (simp add: filter_empty_conv)
    with True show ?thesis by simp
  next
    case False
    with Cons show ?thesis by auto
  qed
qed

lemma addToFavorites_quiet:
  assumes q: "quiet st" and s: "stored_favorites J st = JArr xs" and xs: "list_all is_post xs"
    and p: "is_post post" and r: "roundtrips J"
  shows "fst (addToFavorites J post st) = Success () \<and>
    quiet (snd (addToFavorites J post st)) \<and>
    stored_favorites J (snd (addToFavorites J post st))
      = JArr (if prop_id post \<in> prop_id ` set xs then xs else xs @ [post])"
proof -
  let ?st1 = "st\<lparr>faults := tl (faults st)\<rparr>"
  let ?st2 = "\<lparr>items = (items st)(KEYS_FAVORITES := Some (stringify J (JArr (xs @ [post])))),
              faults = tl (tl (faults st))\<rparr>"
  have a1: "accepts st" using q by (rule quiet_accepts)
  have q1: "quiet ?st1" using q by (rule quiet_tl) simp
  have a2: "accepts ?st1" using q1 by (rule quiet_accepts)
  have q2: "quiet ?st2" using q1 by (rule quiet_tl) simp
  have s1: "stored_favorites J ?st1 = JArr xs"
    using s stored_favorites_same [of ?st1 st J] by simp
  have s2: "stored_favorites J ?st2 = JArr (xs @ [post])"
    using r by (rule stored_favorites_written) simp
  show ?thesis
    using q1 q2 s1 s2 by (simp add: addToFavorites_accepted [OF a1 a2 s xs p])
qed

section \<open>Authentication\<close>

text \<open>
  C1. For every codec, store, email and password, \<^verbatim>\<open>validateUser\<close> succeeds with the
  user \<open>u\<close> if and only if the read of the user record is not rejected, a non-empty string
  is stored under the user key, that string parses to \<open>u\<close>, and the \<^verbatim>\<open>email\<close> and
  \<^verbatim>\<open>password\<close> properties of \<open>u\<close> are the strings given, by strict equality (a string
  of the same characters; no coercion). In every other case, an absent or unreadable
  record included, the result is the failure that carries the literal
  \<^verbatim>\<open>Invalid email or password\<close>. The \<^verbatim>\<open>catch\<close> branch of \<^verbatim>\<open>validateUser\<close> is never
  taken.
\<close>

theorem validateUser_iff:
  "(fst (validateUser J email password st) = Success u \<longleftrightarrow>
      accepts st \<and>
      (\<exists>s. items st KEYS_USER = Some s \<and> s \<noteq> [] \<and> parse J s = Some u) \<and>
      get_prop u ''email'' = Inr (Some (JStr email)) \<and>
      get_prop u ''password'' = Inr (Some (JStr password))) \<and>
   ((\<exists>v. fst (validateUser J email password st) = Success v) \<or>
      fst (validateUser J email password st) = Failure (Literal ''Invalid email or password''))"
proof -
  let ?g = "fst (getUserData J st)"
  have stored: "?g = u \<longleftrightarrow>
      accepts st \<and> (\<exists>s. items st KEYS_USER = Some s \<and> s \<noteq> [] \<and> parse J s = Some u)"
    if "u \<noteq> JNull" for u
  proof (cases "accepts st")
    case True
    show ?thesis
    proof (cases "items st KEYS_USER")
      case None
      with True that show ?thesis by (auto simp: getUserData_accepts)
    next
      case (Some s)
      with True that show ?thesis
        by (cases "parse J s") (auto simp: getUserData_accepts)
    qed
  next
    case False
    with that show ?thesis by (auto simp: getUserData_rejects)
  qed
  have nn: "u \<noteq> JNull" if "get_prop u ''email'' = Inr e" for e
    using that by auto
  have "fst (validateUser J email password st) = Success u \<longleftrightarrow>
      ?g = u \<and> get_prop u ''email'' = Inr (Some (JStr email)) \<and>
      get_prop u ''password'' = Inr (Some (JStr password))"
    by (auto simp: validateUser_result)
  also have "\<dots> \<longleftrightarrow> accepts st \<and>
      (\<exists>s. items st KEYS_USER = Some s \<and> s \<noteq> [] \<and> parse J s = Some u) \<and>
      get_prop u ''email'' = Inr (Some (JStr email)) \<and>
      get_prop u ''password'' = Inr (Some (JStr password))"
    using stored [of u] nn [of "Some (JStr email)"] by blast
  finally have 1: "fst (validateUser J email password st) = Success u \<longleftrightarrow>
      accepts st \<and>
      (\<exists>s. items st KEYS_USER = Some s \<and> s \<noteq> [] \<and> parse J s = Some u) \<and>
      get_prop u ''email'' = Inr (Some (JStr email)) \<and>
      get_prop u ''password'' = Inr (Some (JStr password))" .
  have 2: "(\<exists>v. fst (validateUser J email password st) = Success v) \<or>
      fst (validateUser J email password st) = Failure (Literal ''Invalid email or password'')"
    by (simp add: validateUser_result)
  from 1 2 show ?thesis by blast
qed

text \<open>
  C1 on a store that holds one account: the right email and password log in, a password
  that differs in the case of one letter does not, and on an empty store nothing does.
\<close>

theorem validateUser_iff_witness:
  "fst (validateUser compact_JSON ''ada@example.com'' ''s3cret''
          (store_of [(KEYS_USER, ser example_user)] [])) = Success example_user \<and>
   fst (validateUser compact_JSON ''ada@example.com'' ''S3cret''
          (store_of [(KEYS_USER, ser example_user)] []))
     = Failure (Literal ''Invalid email or password'') \<and>
   fst (validateUser compact_JSON ''ada@example.com'' ''s3cret'' (store_of [] []))
     = Failure (Literal ''Invalid email or password'')"
proof -
  let ?st = "store_of [(KEYS_USER, ser example_user)] []"
  have a: "accepts ?st" by (simp add: accepts_def store_of_def)
  have i: "items ?st KEYS_USER = Some (ser example_user)" by (simp add: store_of_def)
  have i0: "items (store_of [] []) KEYS_USER = None" by (simp add: store_of_def)
  have p: "parse compact_JSON (ser example_user) = Some example_user"
    by (simp add: compact_JSON_def parse_text_ser)
  have n: "ser example_user \<noteq> []" by (rule ser_nonempty)
  have e: "get_prop example_user ''email'' = Inr (Some (JStr ''ada@example.com''))"
    "get_prop example_user ''password'' = Inr (Some (JStr ''s3cret''))"
    by (simp_all add: example_user_def)
  have 1: "fst (validateUser compact_JSON ''ada@example.com'' ''s3cret'' ?st) = Success example_user"
    using validateUser_iff [of compact_JSON "''ada@example.com''" "''s3cret''" ?st example_user]
      a i p n e by simp
  have "\<not> (\<exists>v. fst (validateUser compact_JSON ''ada@example.com'' ''S3cret'' ?st) = Success v)"
    using validateUser_iff [of compact_JSON "''ada@example.com''" "''S3cret''" ?st] i p e by simp
  then have 2: "fst (validateUser compact_JSON ''ada@example.com'' ''S3cret'' ?st)
             = Failure (Literal ''Invalid email or password'')"
    using validateUser_iff [of compact_JSON "''ada@example.com''" "''S3cret''" ?st] by blast
  have "\<not> (\<exists>v. fst (validateUser compact_JSON ''ada@example.com'' ''s3cret'' (store_of [] []))
           = Success v)"
    using validateUser_iff [of compact_JSON "''ada@example.com''" "''s3cret''" "store_of [] []"] i0
    by simp
  then have 3: "fst (validateUser compact_JSON ''ada@example.com'' ''s3cret'' (store_of [] []))
             = Failure (Literal ''Invalid email or password'')"
    using validateUser_iff [of compact_JSON "''ada@example.com''" "''s3cret''" "store_of [] []"]
    by blast
  show ?thesis using 1 2 3 by simp
qed

section \<open>Favorites: at most one entry per id\<close>

text \<open>
  C2. Let the codec parse back what it prints, and let the stored favorites be a list of
  posts with at most one entry per id. Then the same holds after any sequence of
  \<^verbatim>\<open>addToFavorites\<close> (of posts) and \<^verbatim>\<open>removeFromFavorites\<close>, whatever calls the device
  rejects on the way. When the device rejects nothing, \<^verbatim>\<open>addToFavorites\<close> returns
  success and the stored list is the old list if an entry already has the id of the post,
  and the old list with the post appended otherwise; and after adding a post and then a
  post of the same id, exactly one stored entry has that id.
\<close>

theorem favorites_unique_ids:
  assumes r: "roundtrips J" and u: "unique_ids J st"
    and p: "is_post post" and p': "is_post post'" and same: "prop_id post' = prop_id post"
    and ops: "list_all adds_post ops"
  shows "unique_ids J (run_ops J ops st) \<and>
    (quiet st \<longrightarrow>
       (\<exists>xs. stored_favorites J st = JArr xs \<and>
          fst (addToFavorites J post st) = Success () \<and>
          stored_favorites J (snd (addToFavorites J post st))
            = JArr (if prop_id post \<in> prop_id ` set xs then xs else xs @ [post])) \<and>
       (\<exists>ys. stored_favorites J (run_ops J [Add post, Add post'] st) = JArr ys \<and>
          length (filter (\<lambda>v. prop_id v = prop_id post) ys) = 1))"
proof -
  have inv: "unique_ids J (run_ops J ops st)"
    using r u ops by (rule run_ops_unique)
  have twice: "(\<exists>xs. stored_favorites J st = JArr xs \<and>
          fst (addToFavorites J post st) = Success () \<and>
          stored_favorites J (snd (addToFavorites J post st))
            = JArr (if prop_id post \<in> prop_id ` set xs then xs else xs @ [post])) \<and>
       (\<exists>ys. stored_favorites J (run_ops J [Add post, Add post'] st) = JArr ys \<and>
          length (filter (\<lambda>v. prop_id v = prop_id post) ys) = 1)"
    if q: "quiet st"
  proof -
    from u obtain xs where xs: "stored_favorites J st = JArr xs" "list_all is_post xs"
      "distinct (map prop_id xs)" by (auto simp: unique_ids_iff)
    let ?zs = "if prop_id post \<in> prop_id ` set xs then xs else xs @ [post]"
    let ?st1 = "snd (addToFavorites J post st)"
    have first: "fst (addToFavorites J post st) = Success ()" "quiet ?st1"
      "stored_favorites J ?st1 = JArr ?zs"
      using addToFavorites_quiet [OF q xs(1,2) p r] by simp_all
    have zs: "list_all is_post ?zs" "distinct (map prop_id ?zs)" "prop_id post \<in> prop_id ` set ?zs"
      using xs(2,3) p by auto
    have "stored_favorites J (snd (addToFavorites J post' ?st1))
            = JArr (if prop_id post' \<in> prop_id ` set ?zs then ?zs else ?zs @ [post'])"
      using addToFavorites_quiet [OF first(2,3) zs(1) p' r] by simp
    with zs(3) same have second: "stored_favorites J (snd (addToFavorites J post' ?st1)) = JArr ?zs"
      by simp
    have "length (filter (\<lambda>v. prop_id v = prop_id post) ?zs) = 1"
      using zs(2,3) by (rule one_entry)
    with second have "\<exists>ys. stored_favorites J (run_ops J [Add post, Add post'] st) = JArr ys \<and>
          length (filter (\<lambda>v. prop_id v = prop_id post) ys) = 1"
      by (simp add: run_ops_def)
    with xs(1) first(1,3) show ?thesis by blast
  qed
  from inv twice show ?thesis by blast
qed

text \<open>
  C2 on an empty store: four operations keep the ids unique, the first post added is the
  stored list, and adding a second post with its id leaves one entry of that id.
\<close>

theorem favorites_unique_ids_witness:
  "roundtrips compact_JSON \<and> unique_ids compact_JSON (store_of [] []) \<and>
   quiet (store_of [] []) \<and>
   is_post (example_post 1 ''first'') \<and> is_post (example_post 1 ''again'') \<and>
   prop_id (example_post 1 ''again'') = prop_id (example_post 1 ''first'') \<and>
   list_all adds_post example_ops \<and>
   unique_ids compact_JSON (run_ops compact_JSON example_ops (store_of [] [])) \<and>
   stored_favorites compact_JSON (snd (addToFavorites compact_JSON (example_post 1 ''first'')
     (store_of [] []))) = JArr [example_post 1 ''first''] \<and>
   (\<exists>ys. stored_favorites compact_JSON
            (run_ops compact_JSON [Add (example_post 1 ''first''), Add (example_post 1 ''again'')]
               (store_of [] [])) = JArr ys \<and>
         length (filter (\<lambda>v. prop_id v = prop_id (example_post 1 ''first'')) ys) = 1)"
proof -
  have s: "stored_favorites compact_JSON (store_of [] []) = JArr []"
    by (simp add: stored_favorites_eq store_of_def)
  have u: "unique_ids compact_JSON (store_of [] [])"
    by (simp add: unique_ids_def s)
  have q: "quiet (store_of [] [])" by (simp add: quiet_def store_of_def)
  have p: "is_post (example_post 1 ''first'')" "is_post (example_post 1 ''again'')"
    by (simp_all add: is_post_def example_post_def)
  have e: "prop_id (example_post 1 ''again'') = prop_id (example_post 1 ''first'')"
    by (simp add: prop_id_def example_post_def)
  have o: "list_all adds_post example_ops"
    by (simp add: example_ops_def is_post_def example_post_def)
  show ?thesis
    using favorites_unique_ids [OF compact_JSON_roundtrips u p e o] s u q p e o
      compact_JSON_roundtrips
    by auto
qed

section \<open>Favorites: storage failures\<close>

text \<open>
  C3. What the favorites operations return when the device rejects a call, for every codec,
  post, id, stored string \<open>s\<close> and error message \<open>m\<close>. When the write is rejected,
  \<^verbatim>\<open>addToFavorites\<close> and \<^verbatim>\<open>removeFromFavorites\<close> return success and the store is as
  it was. When the read is rejected, \<^verbatim>\<open>removeFromFavorites\<close> returns success and
  replaces the stored favorites by the empty list, and \<^verbatim>\<open>addToFavorites\<close> returns
  success and replaces them by the list of the one new post. \<^verbatim>\<open>saveFavorites\<close> alone, on
  the same rejected write, returns the failure with the message: its result is what the
  two operations drop.
\<close>

theorem favorites_failure_reported_as_success:
  "addToFavorites J post (store_of [] [None, Some m]) = (Success (), store_of [] []) \<and>
   removeFromFavorites J postId (store_of [] [None, Some m]) = (Success (), store_of [] []) \<and>
   fst (removeFromFavorites J postId (store_of [(KEYS_FAVORITES, s)] [Some m])) = Success () \<and>
   items (snd (removeFromFavorites J postId (store_of [(KEYS_FAVORITES, s)] [Some m])))
     KEYS_FAVORITES = Some (stringify J (JArr [])) \<and>
   fst (addToFavorites J post (store_of [(KEYS_FAVORITES, s)] [Some m])) = Success () \<and>
   items (snd (addToFavorites J post (store_of [(KEYS_FAVORITES, s)] [Some m])))
     KEYS_FAVORITES = Some (stringify J (JArr [post])) \<and>
   saveFavorites J (JArr [post]) (store_of [] [Some m])
     = (Failure (Message (Error m)), store_of [] [])"
  by (simp add: addToFavorites_def removeFromFavorites_def getFavorites_def saveFavorites_def
        getItem_def setItem_def next_fault_def store_of_def)

section \<open>Logout\<close>

text \<open>
  C4, at a store that holds an account, with that user logged in: after the Logout button
  of the settings screen, \<^verbatim>\<open>getUserData\<close> still returns the stored user, which is not
  \<^verbatim>\<open>null\<close>; the string under the user key is the one signup wrote.
\<close>

theorem logout_keeps_stored_user:
  "fst (getUserData compact_JSON
          (snd (handleLogout Logout (setUserData example_user initial_context, logged_in_store))))
     = example_user \<and>
   example_user \<noteq> JNull \<and>
   items (snd (handleLogout Logout (setUserData example_user initial_context, logged_in_store)))
     KEYS_USER = Some (ser example_user)"
  by (simp add: handleLogout_store getUserData_logged_in_store)
     (simp add: example_user_def logged_in_store_def store_of_def)

text \<open>
  C4, as the code has it. Neither button of the logout alert of the settings screen, nor
  \<^verbatim>\<open>logoutUser\<close> of the storage module, changes the string under the user key. So
  \<^verbatim>\<open>getUserData\<close> returns after logout what it returned before; in a state in which a
  user record \<open>u\<close> is stored, the next \<^verbatim>\<open>getUserData\<close> whose read goes through returns
  \<open>u\<close>, not \<^verbatim>\<open>null\<close>.
\<close>

theorem logout_leaves_stored_user:
  "items (snd (handleLogout b (ctx, st))) KEYS_USER = items st KEYS_USER \<and>
   fst (getUserData J (snd (handleLogout b (ctx, st)))) = fst (getUserData J st) \<and>
   (accepts st \<and> items st KEYS_USER = Some s \<and> s \<noteq> [] \<and> parse J s = Some u \<longrightarrow>
      fst (getUserData J (snd (handleLogout Logout (ctx, st)))) = u) \<and>
   items (snd (logoutUser st)) KEYS_USER = items st KEYS_USER \<and>
   (accepts (snd (logoutUser st)) \<and> items st KEYS_USER = Some s \<and> s \<noteq> [] \<and>
      parse J s = Some u \<longrightarrow>
      fst (getUserData J (snd (logoutUser st))) = u)"
proof -
  have 1: "fst (getUserData J (snd (handleLogout Logout (ctx, st)))) = u"
    if "accepts st" "items st KEYS_USER = Some s" "s \<noteq> []" "parse J s = Some u"
    using that by (simp add: handleLogout_store getUserData_accepts)
  have 2: "fst (getUserData J (snd (logoutUser st))) = u"
    if "accepts (snd (logoutUser st))" "items st KEYS_USER = Some s" "s \<noteq> []"
      "parse J s = Some u"
    using that by (simp add: getUserData_accepts logoutUser_user)
  show ?thesis
    using 1 2 by (simp add: handleLogout_store logoutUser_user)
qed

text \<open>
  C4 on the store of a logged-in account: after the Logout button, and after
  \<^verbatim>\<open>logoutUser\<close>, the user key holds what signup wrote and \<^verbatim>\<open>getUserData\<close> returns the
  stored user.
\<close>

theorem logout_leaves_stored_user_witness:
  "accepts logged_in_store \<and> accepts (snd (logoutUser logged_in_store)) \<and>
   items logged_in_store KEYS_USER = Some (ser example_user) \<and> ser example_user \<noteq> [] \<and>
   parse compact_JSON (ser example_user) = Some example_user \<and>
   fst (getUserData compact_JSON (snd (handleLogout Logout (initial_context, logged_in_store))))
     = example_user \<and>
   items (snd (logoutUser logged_in_store)) KEYS_USER = Some (ser example_user) \<and>
   fst (getUserData compact_JSON (snd (logoutUser logged_in_store))) = example_user"
proof -
  have a: "accepts logged_in_store"
    by (simp add: accepts_def logged_in_store_def store_of_def)
  have a': "accepts (snd (logoutUser logged_in_store))"
    by (simp add: logoutUser_def setItem_def next_fault_def accepts_def logged_in_store_def
          store_of_def)
  have i: "items logged_in_store KEYS_USER = Some (ser example_user)"
    by (simp add: logged_in_store_def store_of_def)
  have n: "ser example_user \<noteq> []" by (rule ser_nonempty)
  have p: "parse compact_JSON (ser example_user) = Some example_user"
    by (simp add: compact_JSON_def parse_text_ser)
  note t = logout_leaves_stored_user [of Logout initial_context logged_in_store compact_JSON
      "ser example_user" example_user]
  from t a i n p have g1:
    "fst (getUserData compact_JSON (snd (handleLogout Logout (initial_context, logged_in_store))))
       = example_user" by blast
  from t a' i n p have g2:
    "fst (getUserData compact_JSON (snd (logoutUser logged_in_store))) = example_user" by blast
  from t have "items (snd (logoutUser logged_in_store)) KEYS_USER = items logged_in_store KEYS_USER"
    by blast
  with i have g3: "items (snd (logoutUser logged_in_store)) KEYS_USER = Some (ser example_user)"
    by simp
  from a a' i n p g1 g2 g3 show ?thesis by blast
qed

section \<open>Favorites: removal\<close>

text \<open>
  C5. Let the device reject nothing, the codec parse back what it prints, the stored
  favorites be a list \<open>xs\<close> without \<^verbatim>\<open>null\<close> entries, and the id be one that
  \<^verbatim>\<open>===\<close> compares by value. Then \<^verbatim>\<open>removeFromFavorites\<close> returns success, the
  stored list becomes \<open>xs\<close> without the entries of that id (every other entry stays, in
  order), and no other key changes. Removing the same id again returns success and leaves
  the store as the first removal left it. When no entry has the id the stored list is
  still \<open>xs\<close>; when one has, the list gets shorter.
\<close>

theorem removeFromFavorites_filters:
  assumes q: "quiet st" and r: "roundtrips J"
    and s: "stored_favorites J st = JArr xs" and n: "JNull \<notin> set xs"
    and p: "is_primitive postId"
  shows "fst (removeFromFavorites J postId st) = Success () \<and>
    stored_favorites J (snd (removeFromFavorites J postId st))
      = JArr (filter (\<lambda>v. prop_id v \<noteq> postId) xs) \<and>
    (\<forall>k. k = KEYS_FAVORITES \<or> items (snd (removeFromFavorites J postId st)) k = items st k) \<and>
    fst (removeFromFavorites J postId (snd (removeFromFavorites J postId st))) = Success () \<and>
    items (snd (removeFromFavorites J postId (snd (removeFromFavorites J postId st))))
      = items (snd (removeFromFavorites J postId st)) \<and>
    (if postId \<in> prop_id ` set xs
     then length (filter (\<lambda>v. prop_id v \<noteq> postId) xs) < length xs
     else stored_favorites J (snd (removeFromFavorites J postId st)) = JArr xs)"
proof -
  let ?ys = "filter (\<lambda>v. prop_id v \<noteq> postId) xs"
  let ?st1 = "\<lparr>items = (items st)(KEYS_FAVORITES := Some (stringify J (JArr ?ys))),
              faults = tl (tl (faults st))\<rparr>"
  have a1: "accepts st" using q by (rule quiet_accepts)
  have q1: "quiet (st\<lparr>faults := tl (faults st)\<rparr>)" using q by (rule quiet_tl) simp
  have a2: "accepts (st\<lparr>faults := tl (faults st)\<rparr>)" using q1 by (rule quiet_accepts)
  have one: "removeFromFavorites J postId st = (Success (), ?st1)"
    using removeFromFavorites_accepted [OF a1 a2 s n p] .
  have q2: "quiet ?st1" using q1 by (rule quiet_tl) simp
  have s1: "stored_favorites J ?st1 = JArr ?ys"
    using r by (rule stored_favorites_written) simp
  have n1: "JNull \<notin> set ?ys" using n by simp
  have b1: "accepts ?st1" using q2 by (rule quiet_accepts)
  have q3: "quiet (?st1\<lparr>faults := tl (faults ?st1)\<rparr>)" using q2 by (rule quiet_tl) simp
  have b2: "accepts (?st1\<lparr>faults := tl (faults ?st1)\<rparr>)" using q3 by (rule quiet_accepts)
  have ff: "filter (\<lambda>v. prop_id v \<noteq> postId) ?ys = ?ys" by simp
  have two: "items (snd (removeFromFavorites J postId ?st1)) = items ?st1"
    "fst (removeFromFavorites J postId ?st1) = Success ()"
    using removeFromFavorites_accepted [OF b1 b2 s1 n1 p] by (simp_all add: ff)
  have same: "?ys = xs" if "postId \<notin> prop_id ` set xs"
    using that by (induction xs) auto
  have less: "length ?ys < length xs" if "postId \<in> prop_id ` set xs"
    using that by (induction xs) (auto simp: less_Suc_eq_le)
  have last: "if postId \<in> prop_id ` set xs
     then length ?ys < length xs else stored_favorites J ?st1 = JArr xs"
  proof (cases "postId \<in> prop_id ` set xs")
    case True
    then show ?thesis using less by simp
  next
    case False
    then show ?thesis using s1 same [OF False] by simp
  qed
  have frame: "\<forall>k. k = KEYS_FAVORITES \<or> items ?st1 k = items st k" by simp
  show ?thesis
    unfolding one fst_conv snd_conv using s1 frame two last by blast
qed

text \<open>
  C5 on a store of two favorites: removing id 1 leaves the post of id 2, and removing the
  absent id 3 leaves both; each removal returns success.
\<close>

theorem removeFromFavorites_filters_witness:
  "quiet (favorites_store []) \<and> roundtrips compact_JSON \<and>
   stored_favorites compact_JSON (favorites_store []) = JArr two_favorites \<and>
   JNull \<notin> set two_favorites \<and> is_primitive (Some (JNum 1)) \<and>
   fst (removeFromFavorites compact_JSON (Some (JNum 1)) (favorites_store [])) = Success () \<and>
   stored_favorites compact_JSON
     (snd (removeFromFavorites compact_JSON (Some (JNum 1)) (favorites_store [])))
     = JArr [example_post 2 ''second''] \<and>
   fst (removeFromFavorites compact_JSON (Some (JNum 3)) (favorites_store [])) = Success () \<and>
   stored_favorites compact_JSON
     (snd (removeFromFavorites compact_JSON (Some (JNum 3)) (favorites_store [])))
     = JArr two_favorites"
proof -
  have q: "quiet (favorites_store [])"
    by (simp add: quiet_def favorites_store_def store_of_def)
  have f1: "filter (\<lambda>v. prop_id v \<noteq> Some (JNum 1)) two_favorites = [example_post 2 ''second'']"
    by (simp add: two_favorites_def example_post_def prop_id_def)
  have f3: "filter (\<lambda>v. prop_id v \<noteq> Some (JNum 3)) two_favorites = two_favorites"
    by (simp add: two_favorites_def example_post_def prop_id_def)
  have 1: "fst (removeFromFavorites compact_JSON (Some (JNum 1)) (favorites_store [])) = Success () \<and>
     stored_favorites compact_JSON
       (snd (removeFromFavorites compact_JSON (Some (JNum 1)) (favorites_store [])))
       = JArr [example_post 2 ''second'']"
    using removeFromFavorites_filters [OF q compact_JSON_roundtrips favorites_store_stored
        two_favorites_ids(1), of "Some (JNum 1)"] f1 by simp
  have 3: "fst (removeFromFavorites compact_JSON (Some (JNum 3)) (favorites_store [])) = Success () \<and>
     stored_favorites compact_JSON
       (snd (removeFromFavorites compact_JSON (Some (JNum 3)) (favorites_store [])))
       = JArr two_favorites"
    using removeFromFavorites_filters [OF q compact_JSON_roundtrips favorites_store_stored
        two_favorites_ids(1), of "Some (JNum 3)"] f3 by simp
  show ?thesis
    using 1 3 q compact_JSON_roundtrips favorites_store_stored two_favorites_ids(1) by simp
qed

section \<open>Defaults of the readers\<close>

text \<open>
  C6. When the string under a reader's key is absent, empty or does not deserialise, the
  reader returns its default: \<^verbatim>\<open>getSettings\<close> the record
  \<^verbatim>\<open>{darkMode: false, notifications: true}\<close>, \<^verbatim>\<open>getFavorites\<close> the empty list,
  \<^verbatim>\<open>getUserData\<close> \<^verbatim>\<open>null\<close>, and \<^verbatim>\<open>checkLoginStatus\<close> false. The cases
  give the same result, so a caller cannot tell a failed deserialisation from an absent key. \<^verbatim>\<open>checkLoginStatus\<close>
  compares the stored string with \<^verbatim>\<open>true\<close> and parses nothing; a string that does not
  deserialise is not that string, because the codec parses \<^verbatim>\<open>true\<close>.
\<close>

theorem read_defaults:
  "(unreadable J st KEYS_SETTINGS \<longrightarrow> fst (getSettings J st) = default_settings) \<and>
   (unreadable J st KEYS_FAVORITES \<longrightarrow> fst (getFavorites J st) = JArr []) \<and>
   (unreadable J st KEYS_USER \<longrightarrow> fst (getUserData J st) = JNull) \<and>
   (unreadable J st KEYS_IS_LOGGED_IN \<and> parse J ''true'' \<noteq> None \<longrightarrow>
      fst (checkLoginStatus st) = False) \<and>
   default_settings = JObj [(''darkMode'', JBool False), (''notifications'', JBool True)]"
  using getSettings_unreadable [of J st] getFavorites_unreadable [of J st]
    getUserData_unreadable [of J st] checkLoginStatus_unreadable [of J st]
  by (simp add: default_settings_def)

text \<open>
  C6 on a store whose settings and user strings do not parse and whose other two keys are
  absent: the four readers return the four defaults.
\<close>

theorem read_defaults_witness:
  "unreadable compact_JSON (store_of [(KEYS_SETTINGS, ''oops''), (KEYS_USER, ''oops'')] []) KEYS_SETTINGS \<and>
   unreadable compact_JSON (store_of [(KEYS_SETTINGS, ''oops''), (KEYS_USER, ''oops'')] []) KEYS_FAVORITES \<and>
   unreadable compact_JSON (store_of [(KEYS_SETTINGS, ''oops''), (KEYS_USER, ''oops'')] []) KEYS_USER \<and>
   unreadable compact_JSON (store_of [(KEYS_SETTINGS, ''oops''), (KEYS_USER, ''oops'')] []) KEYS_IS_LOGGED_IN \<and>
   parse compact_JSON ''true'' \<noteq> None \<and>
   fst (getSettings compact_JSON (store_of [(KEYS_SETTINGS, ''oops''), (KEYS_USER, ''oops'')] []))
     = JObj [(''darkMode'', JBool False), (''notifications'', JBool True)] \<and>
   fst (getFavorites compact_JSON (store_of [(KEYS_SETTINGS, ''oops''), (KEYS_USER, ''oops'')] []))
     = JArr [] \<and>
   fst (getUserData compact_JSON (store_of [(KEYS_SETTINGS, ''oops''), (KEYS_USER, ''oops'')] []))
     = JNull \<and>
   fst (checkLoginStatus (store_of [(KEYS_SETTINGS, ''oops''), (KEYS_USER, ''oops'')] [])) = False"
proof -
  let ?st = "store_of [(KEYS_SETTINGS, ''oops''), (KEYS_USER, ''oops'')] []"
  have u1: "unreadable compact_JSON ?st KEYS_SETTINGS"
    by (simp add: unreadable_def store_of_def key_defs compact_JSON_def parse_text_oops)
  have u2: "unreadable compact_JSON ?st KEYS_FAVORITES"
    by (simp add: unreadable_def store_of_def key_defs)
  have u3: "unreadable compact_JSON ?st KEYS_USER"
    by (simp add: unreadable_def store_of_def key_defs compact_JSON_def parse_text_oops)
  have u4: "unreadable compact_JSON ?st KEYS_IS_LOGGED_IN"
    by (simp add: unreadable_def store_of_def key_defs)
  have t: "parse compact_JSON ''true'' \<noteq> None"
    by (simp add: compact_JSON_def parse_text_true)
  show ?thesis
    using read_defaults [of compact_JSON ?st] u1 u2 u3 u4 t by simp
qed

section \<open>Toggling dark mode\<close>

text \<open>
  C7. When the device lets the write through, \<^verbatim>\<open>toggleDarkMode\<close> stores under the
  settings key the serialised record whose \<^verbatim>\<open>darkMode\<close> is the negation of the
  context's dark mode and whose \<^verbatim>\<open>notifications\<close> is the context's notifications flag,
  and changes no other key; from dark mode false it stores
  \<^verbatim>\<open>{darkMode: true, notifications: n}\<close>. With a codec that parses back what it prints,
  the next \<^verbatim>\<open>getSettings\<close> reads that record. In the context, dark mode is negated and
  the notifications flag is unchanged.
\<close>

theorem toggleDarkMode_persists:
  "(accepts st \<longrightarrow>
      items (snd (toggleDarkMode J (ctx, st))) =
        (items st)(KEYS_SETTINGS := Some (stringify J
           (JObj [(''darkMode'', JBool (\<not> truthy (darkMode ctx))),
                  (''notifications'', JBool (notificationsEnabled ctx))])))) \<and>
   (accepts st \<and> darkMode ctx = JBool False \<longrightarrow>
      items (snd (toggleDarkMode J (ctx, st))) KEYS_SETTINGS =
        Some (stringify J
           (JObj [(''darkMode'', JBool True),
                  (''notifications'', JBool (notificationsEnabled ctx))]))) \<and>
   (accepts st \<and> roundtrips J \<and> accepts (snd (toggleDarkMode J (ctx, st))) \<longrightarrow>
      fst (getSettings J (snd (toggleDarkMode J (ctx, st)))) =
        JObj [(''darkMode'', JBool (\<not> truthy (darkMode ctx))),
              (''notifications'', JBool (notificationsEnabled ctx))]) \<and>
   darkMode (fst (toggleDarkMode J (ctx, st))) = JBool (\<not> truthy (darkMode ctx)) \<and>
   notificationsEnabled (fst (toggleDarkMode J (ctx, st))) = notificationsEnabled ctx"
proof -
  let ?v = "JObj [(''darkMode'', JBool (\<not> truthy (darkMode ctx))),
                  (''notifications'', JBool (notificationsEnabled ctx))]"
  let ?st' = "snd (toggleDarkMode J (ctx, st))"
  have st': "?st' = snd (saveSettings J ?v st)"
    by (simp add: toggleDarkMode_def settings_record_def Let_def)
  have 1: "items ?st' = (items st)(KEYS_SETTINGS := Some (stringify J ?v))" if "accepts st"
    using that by (simp add: st' saveSettings_accepts)
  have 2: "fst (getSettings J ?st') = ?v" if "accepts st" "roundtrips J" "accepts ?st'"
  proof -
    from that(2) have "stringify J ?v \<noteq> []" "parse J (stringify J ?v) = Some ?v"
      unfolding roundtrips_def by blast+
    with 1 [OF that(1)] that(3) show ?thesis
      by (simp add: getSettings_accepts)
  qed
  have 3: "darkMode (fst (toggleDarkMode J (ctx, st))) = JBool (\<not> truthy (darkMode ctx))"
    "notificationsEnabled (fst (toggleDarkMode J (ctx, st))) = notificationsEnabled ctx"
    by (simp_all add: toggleDarkMode_def Let_def)
  have 4: "items ?st' KEYS_SETTINGS =
        Some (stringify J
           (JObj [(''darkMode'', JBool True),
                  (''notifications'', JBool (notificationsEnabled ctx))]))"
    if "accepts st" "darkMode ctx = JBool False"
    using 1 [OF that(1)] that(2) by simp
  show ?thesis using 1 2 3 4 by blast
qed

text \<open>
  C7 at first launch on an empty store: toggling stores and reads back
  \<^verbatim>\<open>{darkMode: true, notifications: true}\<close>.
\<close>

theorem toggleDarkMode_persists_witness:
  "accepts (store_of [] []) \<and> roundtrips compact_JSON \<and>
   accepts (snd (toggleDarkMode compact_JSON (initial_context, store_of [] []))) \<and>
   darkMode initial_context = JBool False \<and>
   items (snd (toggleDarkMode compact_JSON (initial_context, store_of [] []))) KEYS_SETTINGS =
     Some (ser (JObj [(''darkMode'', JBool True), (''notifications'', JBool True)])) \<and>
   fst (getSettings compact_JSON (snd (toggleDarkMode compact_JSON (initial_context, store_of [] []))))
     = JObj [(''darkMode'', JBool True), (''notifications'', JBool True)]"
proof -
  have a: "accepts (store_of [] [])" by (simp add: accepts_def store_of_def)
  have b: "accepts (snd (toggleDarkMode compact_JSON (initial_context, store_of [] [])))"
    by (simp add: toggleDarkMode_def Let_def saveSettings_def setItem_def next_fault_def
          accepts_def store_of_def)
  have d: "darkMode initial_context = JBool False" "notificationsEnabled initial_context = True"
    by (simp_all add: initial_context_def)
  show ?thesis
    using toggleDarkMode_persists [of "store_of [] []" compact_JSON initial_context]
      a b d compact_JSON_roundtrips
    by (simp add: compact_JSON_def)
qed

section \<open>The static content provider\<close>

text \<open>
  C8. \<^verbatim>\<open>fetchPosts\<close> is a success result whose data is the constant list
  \<^verbatim>\<open>samplePosts\<close>: exactly 20 records, each of the shape
  \<^verbatim>\<open>{id, userId, title, body}\<close> with numbers for the two ids and strings for the two
  texts, the ids running from 1 to 20. It takes no argument and no store, so every call
  gives this same list; nothing is fetched, paged or cached.
\<close>

theorem fetchPosts_static:
  "fetchPosts = Success samplePosts \<and> length samplePosts = 20 \<and>
   list_all is_post_record samplePosts \<and>
   map prop_id samplePosts =
     map (\<lambda>i. Some (JNum i)) [1, 2, 3, 4, 5, 6, 7, 8, 9, 10, 11, 12, 13, 14, 15, 16, 17, 18, 19, 20]"
proof -
  have a: "length samplePosts = 20" by (simp add: samplePosts_def)
  have b: "list_all is_post_record samplePosts"
    by (simp add: samplePosts_def is_post_record_def)
  have c: "map prop_id samplePosts =
     map (\<lambda>i. Some (JNum i)) [1, 2, 3, 4, 5, 6, 7, 8, 9, 10, 11, 12, 13, 14, 15, 16, 17, 18, 19, 20]"
    by (simp add: samplePosts_def prop_id_def)
  show ?thesis using a b c by (simp add: fetchPosts_def)
qed

section \<open>Signup\<close>

text \<open>
  C9. Whenever \<^verbatim>\<open>saveUserData\<close> returns success, the user key holds the serialised
  user data and the login flag holds \<^verbatim>\<open>true\<close>, so the next \<^verbatim>\<open>checkLoginStatus\<close>, if
  its read is not rejected, returns true. The two writes are not atomic: when the device
  lets the first through and rejects the second with message \<open>m\<close>, the result is the
  failure with \<open>m\<close>, the user record is written and the login flag is not.
\<close>

theorem saveUserData_writes_both:
  "(fst (saveUserData J userData st) = Success () \<longrightarrow>
      items (snd (saveUserData J userData st)) KEYS_USER = Some (stringify J userData) \<and>
      items (snd (saveUserData J userData st)) KEYS_IS_LOGGED_IN = Some ''true'' \<and>
      (accepts (snd (saveUserData J userData st)) \<longrightarrow>
         fst (checkLoginStatus (snd (saveUserData J userData st))) = True)) \<and>
   fst (saveUserData J userData (store_of [] [None, Some m])) = Failure (Message (Error m)) \<and>
   items (snd (saveUserData J userData (store_of [] [None, Some m]))) KEYS_USER
     = Some (stringify J userData) \<and>
   items (snd (saveUserData J userData (store_of [] [None, Some m]))) KEYS_IS_LOGGED_IN = None"
proof -
  have 1: "items (snd (saveUserData J userData st)) KEYS_USER = Some (stringify J userData) \<and>
      items (snd (saveUserData J userData st)) KEYS_IS_LOGGED_IN = Some ''true'' \<and>
      (accepts (snd (saveUserData J userData st)) \<longrightarrow>
         fst (checkLoginStatus (snd (saveUserData J userData st))) = True)"
    if "fst (saveUserData J userData st) = Success ()"
    using saveUserData_Success [OF that]
    by (simp add: checkLoginStatus_accepts key_defs)
  have 2: "saveUserData J userData (store_of [] [None, Some m]) =
      (Failure (Message (Error m)),
       \<lparr>items = (\<lambda>k. None)(KEYS_USER := Some (stringify J userData)), faults = []\<rparr>)"
    by (simp add: saveUserData_def setItem_def next_fault_def store_of_def)
  show ?thesis using 1 2 by (simp add: key_defs)
qed

text \<open>
  C9 on an empty store with nothing rejected: signup succeeds, both keys are written and
  \<^verbatim>\<open>checkLoginStatus\<close> returns true.
\<close>

theorem saveUserData_writes_both_witness:
  "fst (saveUserData compact_JSON example_user (store_of [] [])) = Success () \<and>
   accepts (snd (saveUserData compact_JSON example_user (store_of [] []))) \<and>
   items (snd (saveUserData compact_JSON example_user (store_of [] []))) KEYS_USER
     = Some (ser example_user) \<and>
   items (snd (saveUserData compact_JSON example_user (store_of [] []))) KEYS_IS_LOGGED_IN
     = Some ''true'' \<and>
   fst (checkLoginStatus (snd (saveUserData compact_JSON example_user (store_of [] [])))) = True"
proof -
  have s: "saveUserData compact_JSON example_user (store_of [] []) =
      (Success (), \<lparr>items = (\<lambda>k. None)(KEYS_USER := Some (ser example_user),
                                         KEYS_IS_LOGGED_IN := Some ''true''), faults = []\<rparr>)"
    by (simp add: saveUserData_def setItem_def next_fault_def store_of_def compact_JSON_def)
  have a: "accepts (snd (saveUserData compact_JSON example_user (store_of [] [])))"
    by (simp add: s accepts_def)
  have ok: "fst (saveUserData compact_JSON example_user (store_of [] [])) = Success ()"
    by (simp add: s)
  show ?thesis
    using saveUserData_writes_both [of compact_JSON example_user "store_of [] []"] a ok
    by (simp add: compact_JSON_def)
qed

section \<open>Favorites: membership\<close>

text \<open>
  C10. When the read is not rejected, the stored favorites are a list \<open>xs\<close> without
  \<^verbatim>\<open>null\<close> entries and the id is one that \<^verbatim>\<open>===\<close> compares by value,
  \<^verbatim>\<open>isInFavorites\<close> returns true if and only if some entry of \<open>xs\<close> has that id. When
  the read is rejected it returns false, as it does for an id that no entry has.
\<close>

theorem isInFavorites_iff:
  "(accepts st \<and> stored_favorites J st = JArr xs \<and> JNull \<notin> set xs \<and> is_primitive postId \<longrightarrow>
      fst (isInFavorites J postId st) = (postId \<in> prop_id ` set xs)) \<and>
   (\<not> accepts st \<longrightarrow> fst (isInFavorites J postId st) = False)"
proof -
  have 1: "fst (isInFavorites J postId st) = (postId \<in> prop_id ` set xs)"
    if a: "accepts st" and s: "stored_favorites J st = JArr xs"
      and n: "JNull \<notin> set xs" and p: "is_primitive postId"
  proof -
    obtain st1 where g: "getFavorites J st = (JArr xs, st1)"
      using getFavorites_read [OF a, of J] s by (cases "getFavorites J st") simp
    show ?thesis
      by (simp add: isInFavorites_def g Array_some_ids [OF n p])
  qed
  have 2: "fst (isInFavorites J postId st) = False" if r: "\<not> accepts st"
  proof -
    obtain st1 where g: "getFavorites J st = (JArr [], st1)"
      using getFavorites_rejects [OF r, of J] by (cases "getFavorites J st") simp
    show ?thesis by (simp add: isInFavorites_def g)
  qed
  show ?thesis using 1 2 by blast
qed

text \<open>
  C10 on a store of two favorites: id 2 is found and id 3 is not; when the device rejects
  the read, id 2 is not found either.
\<close>

theorem isInFavorites_iff_witness:
  "accepts (favorites_store []) \<and>
   stored_favorites compact_JSON (favorites_store []) = JArr two_favorites \<and>
   JNull \<notin> set two_favorites \<and> is_primitive (Some (JNum 2)) \<and>
   fst (isInFavorites compact_JSON (Some (JNum 2)) (favorites_store [])) = True \<and>
   fst (isInFavorites compact_JSON (Some (JNum 3)) (favorites_store [])) = False \<and>
   \<not> accepts (favorites_store [Some ''I/O error'']) \<and>
   fst (isInFavorites compact_JSON (Some (JNum 2)) (favorites_store [Some ''I/O error''])) = False"
proof -
  have a: "accepts (favorites_store [])" "\<not> accepts (favorites_store [Some ''I/O error''])"
    by (simp_all add: accepts_def favorites_store_def store_of_def)
  have s: "prop_id ` set two_favorites = {Some (JNum 1), Some (JNum 2)}"
    using two_favorites_ids(3) by (metis list.set(1) list.set(2) set_map)
  have 1: "fst (isInFavorites compact_JSON (Some (JNum 2)) (favorites_store [])) = True"
    using isInFavorites_iff [of "favorites_store []" compact_JSON two_favorites "Some (JNum 2)"]
      a(1) favorites_store_stored two_favorites_ids(1) s by simp
  have 2: "fst (isInFavorites compact_JSON (Some (JNum 3)) (favorites_store [])) = False"
    using isInFavorites_iff [of "favorites_store []" compact_JSON two_favorites "Some (JNum 3)"]
      a(1) favorites_store_stored two_favorites_ids(1) s by simp
  have 3: "fst (isInFavorites compact_JSON (Some (JNum 2)) (favorites_store [Some ''I/O error'']))
             = False"
    using isInFavorites_iff [of "favorites_store [Some ''I/O error'']" compact_JSON two_favorites
        "Some (JNum 2)"] a(2) by simp
  show ?thesis
    using 1 2 3 a favorites_store_stored two_favorites_ids(1) by simp
qed

end
